theory Spec2Isabelle
  imports Complex_Main "HOL-Library.Word" "HOL-Library.Sublist"
begin

section \<open>Global state of EstacaoMeteorologica.c\<close>

text \<open>
  The program keeps all of its state in global variables. They are gathered in one record,
  with the names of the source. The type parameter \<open>'f\<close> stands for the C type
  \<^verbatim>\<open>float\<close>: the development assumes no law of floating-point arithmetic, the
  operators \<open>+\<close>, \<open>>\<close> and \<open><\<close> on \<open>'f\<close> are those of the syntactic classes
  \<open>plus\<close> and \<open>ord\<close>, which have no axioms. Where C computes in \<^verbatim>\<open>double\<close> and
  converts the result back to \<^verbatim>\<open>float\<close>, the model writes the same operator on \<open>'f\<close>.

  A \<^verbatim>\<open>const char *\<close> that is either \<^verbatim>\<open>NULL\<close> or points to a string is a
  \<open>string option\<close>. A \<open>string\<close> is the contents of a C string: the bytes before its
  terminating NUL.
\<close>

record 'f globals =
  g_current_page_index :: int
  g_target_page :: "string option"
  g_last_press_time :: "32 word"
  g_temp_offset :: 'f
  g_temp_min :: 'f
  g_temp_max :: 'f
  g_umid_offset :: 'f
  g_umid_min :: 'f
  g_umid_max :: 'f
  g_press_offset :: 'f
  g_press_min :: 'f
  g_press_max :: 'f
  g_alt_offset :: 'f
  g_alt_min :: 'f
  g_alt_max :: 'f
  g_temperatura :: 'f
  g_umidade :: 'f
  g_pressao :: 'f
  g_altitude :: 'f

text \<open>
  What the compiler and the C library supply for \<^verbatim>\<open>float\<close>: the value of a floating
  literal of the source (given by its text), \<^verbatim>\<open>atof\<close> followed by the conversion to
  \<^verbatim>\<open>float\<close>, the \<^verbatim>\<open>printf\<close> conversions \<^verbatim>\<open>%.2f\<close> and \<^verbatim>\<open>%.3f\<close>, \<^verbatim>\<open>pow\<close>, and
  \<^verbatim>\<open>snprintf\<close> of a page template with one \<^verbatim>\<open>int\<close> argument (before the cut at the
  buffer size). They are parameters of the model.
\<close>

record 'f clib =
  fconst :: "string \<Rightarrow> 'f"
  atof :: "string \<Rightarrow> 'f"
  fmt_2f :: "'f \<Rightarrow> string"
  fmt_3f :: "'f \<Rightarrow> string"
  pow :: "'f \<Rightarrow> 'f \<Rightarrow> 'f"
  format_template :: "string \<Rightarrow> int \<Rightarrow> string"

text \<open>The initialisers of the globals (lines 65 to 79).\<close>

definition startup :: "'f clib \<Rightarrow> 'f globals" where
  "startup L =
     \<lparr> g_current_page_index = 0, g_target_page = None, g_last_press_time = 0,
       g_temp_offset = fconst L ''0.0f'', g_temp_min = fconst L ''10.0f'',
       g_temp_max = fconst L ''40.0f'',
       g_umid_offset = fconst L ''0.0f'', g_umid_min = fconst L ''60.0f'',
       g_umid_max = fconst L ''85.0f'',
       g_press_offset = fconst L ''0.0f'', g_press_min = fconst L ''85.0f'',
       g_press_max = fconst L ''105.0f'',
       g_alt_offset = fconst L ''0.0f'', g_alt_min = fconst L ''800.0f'',
       g_alt_max = fconst L ''900.0f'',
       g_temperatura = fconst L ''0.0f'', g_umidade = fconst L ''0.0f'',
       g_pressao = fconst L ''0.0f'', g_altitude = fconst L ''0.0f'' \<rparr>"

section \<open>Navigation by the buttons\<close>

definition BUTTON_A :: nat where "BUTTON_A = 5"
definition BUTTON_B :: nat where "BUTTON_B = 6"
definition DEBOUNCE_MS :: "32 word" where "DEBOUNCE_MS = 500"

definition G_PAGES :: "string list" where
  "G_PAGES = [''/'', ''/config'', ''/temperatura'', ''/umidade'', ''/pressao'', ''/altitude'']"

text \<open>
  \<^verbatim>\<open>const int G_NUM_PAGES = sizeof(G_PAGES);\<close> The operand is an array of six
  \<^verbatim>\<open>const char *\<close>, so \<^verbatim>\<open>sizeof\<close> is six times the size of a pointer. The board is
  a Pico W (\<^verbatim>\<open>PICO_BOARD pico_w\<close> in CMakeLists.txt), a 32-bit ARM core: a pointer has
  four bytes.
\<close>

definition sizeof_char_ptr :: nat where "sizeof_char_ptr = 4"

definition G_NUM_PAGES :: int where
  "G_NUM_PAGES = int (length G_PAGES * sizeof_char_ptr)"

text \<open>
  Reading \<^verbatim>\<open>G_PAGES[i]\<close>. The array has six elements; a read at any other index is
  outside the object, which C leaves undefined: the model returns a fault there.
\<close>

datatype fault = OutOfBoundsRead int

definition page_at :: "int \<Rightarrow> fault + string" where
  "page_at i =
     (if 0 \<le> i \<and> i < int (length G_PAGES) then Inr (G_PAGES ! nat i)
      else Inl (OutOfBoundsRead i))"

text \<open>Lines 419 to 434 of \<^verbatim>\<open>gpio_callback\<close>: the new value of the page index.\<close>

definition next_page_index :: "nat \<Rightarrow> int \<Rightarrow> int" where
  "next_page_index gpio i =
     (if gpio = BUTTON_A then
        (let j = i - 1 in if j < 0 then G_NUM_PAGES - 1 else j)
      else if gpio = BUTTON_B then
        (let j = i + 1 in if j \<ge> G_NUM_PAGES then 0 else j)
      else i)"

text \<open>
  \<^verbatim>\<open>gpio_callback(gpio, events)\<close>, with the value \<open>now\<close> that
  \<^verbatim>\<open>to_ms_since_boot(get_absolute_time())\<close> returns as a parameter. The clock and
  \<^verbatim>\<open>g_last_press_time\<close> are \<^verbatim>\<open>uint32_t\<close>: the subtraction wraps and the comparison
  is unsigned, as on \<open>32 word\<close>.
\<close>

definition gpio_callback :: "nat \<Rightarrow> 32 word \<Rightarrow> 'f globals \<Rightarrow> fault + 'f globals" where
  "gpio_callback gpio now s =
     (if now - g_last_press_time s < DEBOUNCE_MS then Inr s
      else
        let s1 = s\<lparr>g_last_press_time := now\<rparr>;
            s2 = s1\<lparr>g_current_page_index := next_page_index gpio (g_current_page_index s1)\<rparr>
        in case page_at (g_current_page_index s2) of
             Inl e \<Rightarrow> Inl e
           | Inr p \<Rightarrow> Inr (s2\<lparr>g_target_page := Some p\<rparr>))"

text \<open>A sequence of edges (button, time of the interrupt), run until the first fault.\<close>

fun run_edges :: "(nat \<times> 32 word) list \<Rightarrow> 'f globals \<Rightarrow> fault + 'f globals" where
  "run_edges [] s = Inr s"
| "run_edges ((gpio, now) # es) s =
     (case gpio_callback gpio now s of
        Inl e \<Rightarrow> Inl e
      | Inr s' \<Rightarrow> run_edges es s')"

section \<open>C strings and formatting\<close>

definition CRLF :: string where
  "CRLF = [CHR 0x0D, CHR 0x0A]"

text \<open>The C string held in a byte array: the bytes before the first NUL.\<close>

definition cstr :: "string \<Rightarrow> string" where
  "cstr bs = takeWhile (\<lambda>c. c \<noteq> CHR 0x00) bs"

text \<open>\<^verbatim>\<open>strstr(haystack, needle)\<close>: the rest of the haystack from the first occurrence
  of the needle on, \<open>None\<close> for \<^verbatim>\<open>NULL\<close>.\<close>

fun strstr :: "string \<Rightarrow> string \<Rightarrow> string option" where
  "strstr [] needle = (if needle = [] then Some [] else None)"
| "strstr (c # cs) needle =
     (if prefix needle (c # cs) then Some (c # cs) else strstr cs needle)"

text \<open>\<^verbatim>\<open>strchr(s, c)\<close>: the rest of \<open>s\<close> from the first \<open>c\<close> on.\<close>

definition strchr :: "string \<Rightarrow> char \<Rightarrow> string option" where
  "strchr s c = (if c \<in> set s then Some (dropWhile (\<lambda>x. x \<noteq> c) s) else None)"

text \<open>\<^verbatim>\<open>snprintf(buf, size, ...)\<close> keeps the first \<open>size - 1\<close> bytes of the formatted
  text.\<close>

definition snprintf_cut :: "nat \<Rightarrow> string \<Rightarrow> string" where
  "snprintf_cut n formatted = take (n - 1) formatted"

text \<open>The conversion \<^verbatim>\<open>%d\<close>.\<close>

fun dec :: "nat \<Rightarrow> string" where
  "dec n = (if n < 10 then [''0123456789'' ! n]
            else dec (n div 10) @ [''0123456789'' ! (n mod 10)])"

declare dec.simps [simp del]

definition printf_d :: "int \<Rightarrow> string" where
  "printf_d i = (if i < 0 then ''-'' @ dec (nat (- i)) else dec (nat i))"

text \<open>A \<^verbatim>\<open>size_t\<close> (32 bits on this target) converted to \<^verbatim>\<open>int\<close>.\<close>

definition int_of_size_t :: "nat \<Rightarrow> int" where
  "int_of_size_t n = sint (word_of_nat n :: 32 word)"

section \<open>Sending a response\<close>

text \<open>
  The connection \<^verbatim>\<open>tpcb\<close> is the list of the chunks written to it so far:
  \<^verbatim>\<open>tcp_write\<close> with \<^verbatim>\<open>TCP_WRITE_FLAG_COPY\<close> queues the \<^verbatim>\<open>strlen(data)\<close> bytes it is
  given. The page templates are constants of the source that hold markup only; the model
  takes them as parameters.
\<close>

record templates =
  HTML_HEADER :: string
  HTML_NAV :: string
  HTML_CONTENT_INICIO :: string
  HTML_CONTENT_CONFIG :: string
  HTML_CONTENT_CHART_PAGE :: string
  HTML_FOOTER :: string

definition MAX_CHART_POINTS :: int where "MAX_CHART_POINTS = 20"

definition send_chunk :: "string list \<Rightarrow> string \<Rightarrow> string list" where
  "send_chunk tpcb data = tpcb @ [data]"

text \<open>
  The local buffer \<^verbatim>\<open>final_content[4096]\<close> of \<^verbatim>\<open>send_full_response\<close>: the template
  formatted with \<^verbatim>\<open>MAX_CHART_POINTS\<close> when it contains \<^verbatim>\<open>%d\<close>, its copy by
  \<^verbatim>\<open>strncpy\<close> otherwise; the last byte of the buffer is then set to NUL.
\<close>

definition final_content :: "'f clib \<Rightarrow> string \<Rightarrow> string" where
  "final_content L content_template =
     (if strstr content_template ''%d'' \<noteq> None
      then snprintf_cut 4096 (format_template L content_template MAX_CHART_POINTS)
      else take 4095 (take 4096 content_template))"

definition send_full_response ::
  "'f clib \<Rightarrow> templates \<Rightarrow> string list \<Rightarrow> string \<Rightarrow> string list" where
  "send_full_response L T tpcb content_template =
     (let content_len = int_of_size_t (length (HTML_HEADER T) + length (HTML_NAV T)
                          + length (final_content L content_template) + length (HTML_FOOTER T));
          http_header = snprintf_cut 128
            (''HTTP/1.1 200 OK'' @ CRLF @ ''Content-Type: text/html'' @ CRLF
             @ ''Content-Length: '' @ printf_d content_len @ CRLF
             @ ''Connection: close'' @ CRLF @ CRLF);
          t1 = send_chunk tpcb http_header;
          t2 = send_chunk t1 (HTML_HEADER T);
          t3 = send_chunk t2 (HTML_NAV T);
          t4 = send_chunk t3 (final_content L content_template)
      in send_chunk t4 (HTML_FOOTER T))"

definition send_json_response :: "string list \<Rightarrow> string \<Rightarrow> string list" where
  "send_json_response tpcb payload =
     (let http_header = snprintf_cut 128
            (''HTTP/1.1 200 OK'' @ CRLF @ ''Content-Type: application/json'' @ CRLF
             @ ''Content-Length: '' @ printf_d (int_of_size_t (length payload)) @ CRLF
             @ ''Connection: close'' @ CRLF @ CRLF);
          t1 = send_chunk tpcb http_header
      in send_chunk t1 payload)"

section \<open>The configuration form\<close>

text \<open>
  One call of \<^verbatim>\<open>strtok(..., "&")\<close> on the rest of the buffer: it skips the leading
  delimiters, returns \<^verbatim>\<open>NULL\<close> at the end of the string, and otherwise the token up to
  the next delimiter and the rest after that delimiter.
\<close>

definition strtok :: "string \<Rightarrow> (string \<times> string) option" where
  "strtok rest =
     (let r = dropWhile (\<lambda>c. c = CHR ''&'') rest
      in if r = [] then None
         else Some (takeWhile (\<lambda>c. c \<noteq> CHR ''&'') r,
                    drop 1 (dropWhile (\<lambda>c. c \<noteq> CHR ''&'') r)))"

text \<open>The chain of \<^verbatim>\<open>strcmp\<close> of lines 510 to 533.\<close>

definition assign_key :: "string \<Rightarrow> 'f \<Rightarrow> 'f globals \<Rightarrow> 'f globals" where
  "assign_key key v s =
     (if key = ''temp_offset'' then s\<lparr>g_temp_offset := v\<rparr>
      else if key = ''temp_min'' then s\<lparr>g_temp_min := v\<rparr>
      else if key = ''temp_max'' then s\<lparr>g_temp_max := v\<rparr>
      else if key = ''umid_offset'' then s\<lparr>g_umid_offset := v\<rparr>
      else if key = ''umid_min'' then s\<lparr>g_umid_min := v\<rparr>
      else if key = ''umid_max'' then s\<lparr>g_umid_max := v\<rparr>
      else if key = ''press_offset'' then s\<lparr>g_press_offset := v\<rparr>
      else if key = ''press_min'' then s\<lparr>g_press_min := v\<rparr>
      else if key = ''press_max'' then s\<lparr>g_press_max := v\<rparr>
      else if key = ''alt_offset'' then s\<lparr>g_alt_offset := v\<rparr>
      else if key = ''alt_min'' then s\<lparr>g_alt_min := v\<rparr>
      else if key = ''alt_max'' then s\<lparr>g_alt_max := v\<rparr>
      else s)"

text \<open>The body of the loop of \<^verbatim>\<open>parse_post_data\<close> for one token.\<close>

definition parse_token :: "'f clib \<Rightarrow> string \<Rightarrow> 'f globals \<Rightarrow> 'f globals" where
  "parse_token L token s =
     (case strchr token (CHR ''='') of
        None \<Rightarrow> s
      | Some value_str \<Rightarrow>
          let key = take (length token - length value_str) token;
              v = atof L (drop 1 value_str)
          in assign_key key v s)"

function parse_tokens :: "'f clib \<Rightarrow> string \<Rightarrow> 'f globals \<Rightarrow> 'f globals" where
  "parse_tokens L rest s =
     (case strtok rest of
        None \<Rightarrow> s
      | Some (token, rest') \<Rightarrow> parse_tokens L rest' (parse_token L token s))"
  by pat_completeness auto
termination
proof (relation "measure (\<lambda>(L, rest, s). length rest)")
  show "wf (measure (\<lambda>(L :: 'f clib, rest :: string, s :: 'f globals). length rest))"
    by simp
next
  fix L :: "'f clib" and rest :: string and s :: "'f globals" and x2 token rest'
  assume a: "strtok rest = Some x2" "(token, rest') = x2"
  define r where "r = dropWhile (\<lambda>c. c = CHR ''&'') rest"
  from a have ne: "r \<noteq> []" and r': "rest' = drop 1 (dropWhile (\<lambda>c. c \<noteq> CHR ''&'') r)"
    by (auto simp: strtok_def r_def Let_def split: if_splits)
  have "length (dropWhile (\<lambda>c. c \<noteq> CHR ''&'') r) \<le> length r"
    by (rule length_dropWhile_le)
  then have "length rest' \<le> length r - 1"
    unfolding r' by simp
  moreover have "length r \<le> length rest"
    unfolding r_def by (rule length_dropWhile_le)
  moreover from ne have "0 < length r" by simp
  ultimately have "length rest' < length rest" by linarith
  then show "((L, rest', parse_token L token s), L, rest, s)
               \<in> measure (\<lambda>(L, rest, s). length rest)"
    by simp
qed

declare parse_tokens.simps [simp del]

text \<open>\<^verbatim>\<open>parse_post_data(data)\<close>: \<^verbatim>\<open>strncpy\<close> of at most 511 bytes into
  \<^verbatim>\<open>buffer[512]\<close>, then the loop over the tokens.\<close>

definition parse_post_data :: "'f clib \<Rightarrow> string \<Rightarrow> 'f globals \<Rightarrow> 'f globals" where
  "parse_post_data L data s = parse_tokens L (take 511 data) s"

section \<open>The request handler\<close>

text \<open>
  \<^verbatim>\<open>pbuf_copy_partial\<close> copies at most 1023 bytes of the received data into
  \<^verbatim>\<open>request_buffer[1024]\<close>, and the last byte of the array is set to NUL. The array
  is not initialised: behind the copied bytes it holds what was there before, \<open>old\<close>.
  The handler works on the C string in the array.
\<close>

definition request_buffer :: "string \<Rightarrow> string \<Rightarrow> string" where
  "request_buffer received old =
     cstr (take 1023 received @ drop (length (take 1023 received)) (take 1023 old)
           @ [CHR 0x00])"

text \<open>The reply of the configuration handler, \<^verbatim>\<open>http_header[]\<close> of line 575.\<close>

definition EMPTY_200 :: string where
  "EMPTY_200 = ''HTTP/1.1 200 OK'' @ CRLF @ ''Content-Length: 0'' @ CRLF @ CRLF"

definition getconfig_json :: "'f clib \<Rightarrow> 'f globals \<Rightarrow> string" where
  \<open>getconfig_json L s =
     ''{"temp_offset":'' @ fmt_2f L (g_temp_offset s)
     @ '',"temp_min":'' @ fmt_2f L (g_temp_min s)
     @ '',"temp_max":'' @ fmt_2f L (g_temp_max s)
     @ '',"umid_offset":'' @ fmt_2f L (g_umid_offset s)
     @ '',"umid_min":'' @ fmt_2f L (g_umid_min s)
     @ '',"umid_max":'' @ fmt_2f L (g_umid_max s)
     @ '',"press_offset":'' @ fmt_2f L (g_press_offset s)
     @ '',"press_min":'' @ fmt_2f L (g_press_min s)
     @ '',"press_max":'' @ fmt_2f L (g_press_max s)
     @ '',"alt_offset":'' @ fmt_2f L (g_alt_offset s)
     @ '',"alt_min":'' @ fmt_2f L (g_alt_min s)
     @ '',"alt_max":'' @ fmt_2f L (g_alt_max s) @ ''}''\<close>

definition estado_json :: "'f clib \<Rightarrow> 'f globals \<Rightarrow> string" where
  \<open>estado_json L s =
     ''{"temperatura":'' @ fmt_2f L (g_temperatura s)
     @ '',"umidade":'' @ fmt_2f L (g_umidade s)
     @ '',"pressao":'' @ fmt_3f L (g_pressao s)
     @ '',"altitude":'' @ fmt_2f L (g_altitude s) @ ''}''\<close>

text \<open>
  The body of \<^verbatim>\<open>tcp_server_recv\<close> from line 553 on, for the C string \<open>buf\<close> in
  \<^verbatim>\<open>request_buffer\<close>. It returns the globals and the chunks written to the connection,
  which is then closed.
\<close>

definition tcp_server_recv_buffer ::
  "'f clib \<Rightarrow> templates \<Rightarrow> string \<Rightarrow> 'f globals \<Rightarrow> 'f globals \<times> string list" where
  \<open>tcp_server_recv_buffer L T buf s =
     (if strstr buf ''GET /navigate '' \<noteq> None then
        (case g_target_page s of
           Some page \<Rightarrow>
             (s\<lparr>g_target_page := None\<rparr>,
              send_json_response [] (snprintf_cut 128 (''{"goto":"'' @ page @ ''"}'')))
         | None \<Rightarrow>
             (s, send_json_response [] (snprintf_cut 128 ''{"goto":null}'')))
      else if strstr buf ''POST /config '' \<noteq> None then
        (let s' = (case strstr buf (CRLF @ CRLF) of
                     Some body \<Rightarrow> parse_post_data L (drop 4 body) s
                   | None \<Rightarrow> s)
         in (s', send_chunk [] EMPTY_200))
      else if strstr buf ''GET /getconfig '' \<noteq> None then
        (s, send_json_response [] (snprintf_cut 512 (getconfig_json L s)))
      else if strstr buf ''GET /estado '' \<noteq> None then
        (s, send_json_response [] (snprintf_cut 128 (estado_json L s)))
      else
        (let content_to_send =
               (if strstr buf ''GET /config '' \<noteq> None then HTML_CONTENT_CONFIG T
                else if strstr buf ''GET /temperatura '' \<noteq> None
                        \<or> strstr buf ''GET /umidade '' \<noteq> None
                        \<or> strstr buf ''GET /pressao '' \<noteq> None
                        \<or> strstr buf ''GET /altitude '' \<noteq> None
                     then HTML_CONTENT_CHART_PAGE T
                else HTML_CONTENT_INICIO T)
         in (s, send_full_response L T [] content_to_send)))\<close>

text \<open>\<^verbatim>\<open>tcp_server_recv\<close>: \<open>p\<close> is \<open>None\<close> when the peer has closed the connection
  (\<^verbatim>\<open>!p\<close>); nothing is sent then.\<close>

definition tcp_server_recv ::
  "'f clib \<Rightarrow> templates \<Rightarrow> string option \<Rightarrow> string \<Rightarrow> 'f globals
     \<Rightarrow> 'f globals \<times> string list" where
  "tcp_server_recv L T p old s =
     (case p of
        None \<Rightarrow> (s, [])
      | Some received \<Rightarrow> tcp_server_recv_buffer L T (request_buffer received old) s)"

section \<open>The sample cycle of the main loop\<close>

text \<open>What the sensor drivers return in one cycle: the two fields of \<^verbatim>\<open>data_aht\<close> and
  the converted pressure.\<close>

record 'f sample =
  temperature :: 'f
  humidity :: 'f
  pressure_pa :: 'f

datatype pattern = alerta1 | matrizVazia

definition calculate_altitude ::
  "('f :: {minus, times, inverse}) clib \<Rightarrow> 'f \<Rightarrow> 'f" where
  "calculate_altitude L p =
     fconst L ''44330.0''
       * (fconst L ''1.0'' - pow L (p / fconst L ''101325.0'') (fconst L ''0.1903''))"

text \<open>Lines 313 to 316: the four readings, in this order.\<close>

definition apply_offsets ::
  "('f :: {plus, minus, times, inverse}) clib \<Rightarrow> 'f sample \<Rightarrow> 'f globals \<Rightarrow> 'f globals" where
  "apply_offsets L d s =
     (let s1 = s\<lparr>g_temperatura := temperature d + g_temp_offset s\<rparr>;
          s2 = s1\<lparr>g_umidade := humidity d + g_umid_offset s1\<rparr>;
          s3 = s2\<lparr>g_pressao := (pressure_pa d / fconst L ''1000.0'') + g_press_offset s2\<rparr>
      in s3\<lparr>g_altitude := calculate_altitude L (pressure_pa d) + g_alt_offset s3\<rparr>)"

text \<open>Lines 319 to 328: the local \<^verbatim>\<open>em_alerta\<close>.\<close>

definition em_alerta :: "('f :: ord) globals \<Rightarrow> bool" where
  "em_alerta s =
     (let a0 = False;
          a1 = (if g_temperatura s > g_temp_max s \<or> g_temperatura s < g_temp_min s
                then True else a0)
      in (if g_umidade s > g_umid_max s \<or> g_umidade s < g_umid_min s then True else a1))"

text \<open>Lines 330 to 339: what is drawn on the LED matrix.\<close>

definition draw_alert :: "bool \<Rightarrow> pattern list" where
  "draw_alert a = (if a then [alerta1, alerta1] else [matrizVazia])"

text \<open>
  One iteration of the \<^verbatim>\<open>while (true)\<close> of \<^verbatim>\<open>main\<close>, after \<^verbatim>\<open>cyw43_arch_poll\<close>:
  the state is the local \<^verbatim>\<open>last_sensor_read_ms\<close> and the globals; the result also holds
  what was drawn, \<open>None\<close> when the cycle was not due.
\<close>

definition main_loop_iteration ::
  "('f :: {plus, minus, times, inverse, ord}) clib \<Rightarrow> 32 word \<Rightarrow> 'f sample
     \<Rightarrow> 32 word \<times> 'f globals \<Rightarrow> (32 word \<times> 'f globals) \<times> pattern list option" where
  "main_loop_iteration L now_ms d st =
     (case st of (last_sensor_read_ms, s) \<Rightarrow>
        if now_ms - last_sensor_read_ms \<ge> 2000 then
          (let s' = apply_offsets L d s
           in ((now_ms, s'), Some (draw_alert (em_alerta s'))))
        else ((last_sensor_read_ms, s), None))"

section \<open>An instance of the C library on decimal texts\<close>

text \<open>
  For evaluating the model on concrete inputs, \<^verbatim>\<open>float\<close> is read as \<open>real\<close> and the
  library as exact decimal arithmetic: \<open>atof_decimal\<close> reads an optional sign, digits and
  an optional fraction (anything else ends the number, no digits give 0), and
  \<open>fmt_fixed\<close> prints with a fixed number of decimals. They agree with C on the short
  decimal texts used below. The template formatter replaces \<^verbatim>\<open>%d\<close> only.
\<close>

definition isspace :: "char \<Rightarrow> bool" where
  "isspace c = (c \<in> set [CHR '' '', CHR 0x09, CHR 0x0A, CHR 0x0B, CHR 0x0C, CHR 0x0D])"

definition isdigit :: "char \<Rightarrow> bool" where
  "isdigit c = (c \<in> set ''0123456789'')"

definition decimal_value :: "string \<Rightarrow> nat" where
  "decimal_value ds = foldl (\<lambda>n c. 10 * n + (of_char c - 48)) 0 ds"

definition atof_decimal :: "string \<Rightarrow> real" where
  "atof_decimal str =
     (let s1 = dropWhile isspace str;
          s2 = (if take 1 s1 = ''-'' \<or> take 1 s1 = ''+'' then drop 1 s1 else s1);
          ip = takeWhile isdigit s2;
          r = dropWhile isdigit s2;
          fp = (if take 1 r = ''.'' then takeWhile isdigit (drop 1 r) else []);
          v = real (decimal_value (ip @ fp)) / 10 ^ length fp
      in if take 1 s1 = ''-'' then - v else v)"

definition fmt_fixed :: "nat \<Rightarrow> real \<Rightarrow> string" where
  "fmt_fixed d x =
     (let n = nat \<lfloor>\<bar>x\<bar> * 10 ^ d + 1 / 2\<rfloor>;
          fp = dec (n mod 10 ^ d)
      in (if x < 0 then ''-'' else []) @ dec (n div 10 ^ d) @ ''.''
         @ replicate (d - length fp) (CHR ''0'') @ fp)"

fun subst_d :: "string \<Rightarrow> int \<Rightarrow> string" where
  "subst_d [] n = []"
| "subst_d [c] n = [c]"
| "subst_d (c # c' # cs) n =
     (if c = CHR ''%'' \<and> c' = CHR ''d'' then printf_d n @ subst_d cs n
      else c # subst_d (c' # cs) n)"

definition decimal_clib :: "real clib" where
  "decimal_clib =
     \<lparr> fconst = atof_decimal, atof = atof_decimal, fmt_2f = fmt_fixed 2, fmt_3f = fmt_fixed 3,
       pow = (powr), format_template = subst_d \<rparr>"

definition small_templates :: templates where
  "small_templates =
     \<lparr> HTML_HEADER = ''<html>'', HTML_NAV = ''<nav/>'',
       HTML_CONTENT_INICIO = ''<main>home</main>'',
       HTML_CONTENT_CONFIG = ''<main>config</main>'',
       HTML_CONTENT_CHART_PAGE = ''<h1>chart</h1><script>n>%d</script>'',
       HTML_FOOTER = ''</html>'' \<rparr>"


section \<open>Notions used in the statements\<close>

text \<open>
  The route table of the specification: the text \<open>"<method> <path> "\<close> of each entry
  with its handler, in the order in which the handler looks for them. \<open>route_of\<close> is the
  handler of the first entry whose text occurs somewhere in the buffer, the home page when
  none does.
\<close>

datatype handler = Navigate | PostConfig | GetConfig | Estado | ConfigPage | ChartPage | HomePage

definition route_table :: "(string \<times> handler) list" where
  "route_table =
     [(''GET /navigate '', Navigate), (''POST /config '', PostConfig),
      (''GET /getconfig '', GetConfig), (''GET /estado '', Estado),
      (''GET /config '', ConfigPage), (''GET /temperatura '', ChartPage),
      (''GET /umidade '', ChartPage), (''GET /pressao '', ChartPage),
      (''GET /altitude '', ChartPage)]"

definition route_of :: "string \<Rightarrow> handler" where
  "route_of buf =
     (case find (\<lambda>(tok, h). sublist tok buf) route_table of
        None \<Rightarrow> HomePage
      | Some (tok, h) \<Rightarrow> h)"

text \<open>The twelve configuration scalars, in the order of \<^verbatim>\<open>/getconfig\<close>.\<close>

definition config_scalars :: "'f globals \<Rightarrow> 'f list" where
  "config_scalars s =
     [g_temp_offset s, g_temp_min s, g_temp_max s, g_umid_offset s, g_umid_min s, g_umid_max s,
      g_press_offset s, g_press_min s, g_press_max s, g_alt_offset s, g_alt_min s, g_alt_max s]"

text \<open>
  A response as a client reads it. The bytes on the connection are the concatenation of the
  chunks; the header block ends with the first empty line, the body is what follows it, and
  the value of the \<^verbatim>\<open>Content-Length\<close> header is the decimal number after its name.
  A response is well framed when its first chunk is exactly the header block and the
  declared length is the length of the body.
\<close>

definition content_length_header :: "string \<Rightarrow> nat option" where
  "content_length_header hdr =
     (case strstr hdr ''Content-Length: '' of
        None \<Rightarrow> None
      | Some r \<Rightarrow>
          (let ds = takeWhile isdigit (drop 16 r)
           in if ds = [] then None else Some (decimal_value ds)))"

definition http_split :: "string \<Rightarrow> (string \<times> string) option" where
  "http_split stream =
     (case strstr stream (CRLF @ CRLF) of
        None \<Rightarrow> None
      | Some r \<Rightarrow> Some (take (length stream - length r + 4) stream, drop 4 r))"

definition well_framed :: "string list \<Rightarrow> bool" where
  "well_framed chunks =
     (chunks \<noteq> []
      \<and> http_split (concat chunks) = Some (hd chunks, concat (tl chunks))
      \<and> content_length_header (hd chunks) = Some (length (concat (tl chunks))))"

text \<open>
  The fields of a form body as the specification describes them: the body is split at every
  \<open>&\<close>, a piece that contains \<open>=\<close> is a field, its key is the text before the first
  \<open>=\<close> and its value the text after it. \<open>config_table\<close> names the twelve
  configuration scalars by their keys, \<open>non_config\<close> is the rest of the state: the
  navigation variables and the four readings.
\<close>

fun split_on :: "char \<Rightarrow> string \<Rightarrow> string list" where
  "split_on d [] = [[]]"
| "split_on d (c # cs) =
     (if c = d then [] # split_on d cs
      else (case split_on d cs of
              [] \<Rightarrow> [[c]]
            | t # ts \<Rightarrow> (c # t) # ts))"

definition split_field :: "string \<Rightarrow> string \<times> string" where
  "split_field f =
     (takeWhile (\<lambda>c. c \<noteq> CHR ''='') f, drop 1 (dropWhile (\<lambda>c. c \<noteq> CHR ''='') f))"

definition form_fields :: "string \<Rightarrow> (string \<times> string) list" where
  "form_fields body =
     map split_field (filter (\<lambda>f. CHR ''='' \<in> set f) (split_on (CHR ''&'') body))"

definition config_table :: "(string \<times> ('f globals \<Rightarrow> 'f)) list" where
  "config_table =
     [(''temp_offset'', g_temp_offset), (''temp_min'', g_temp_min), (''temp_max'', g_temp_max),
      (''umid_offset'', g_umid_offset), (''umid_min'', g_umid_min), (''umid_max'', g_umid_max),
      (''press_offset'', g_press_offset), (''press_min'', g_press_min),
      (''press_max'', g_press_max),
      (''alt_offset'', g_alt_offset), (''alt_min'', g_alt_min), (''alt_max'', g_alt_max)]"

definition non_config ::
  "'f globals \<Rightarrow> int \<times> string option \<times> 32 word \<times> 'f \<times> 'f \<times> 'f \<times> 'f" where
  "non_config s =
     (g_current_page_index s, g_target_page s, g_last_press_time s,
      g_temperatura s, g_umidade s, g_pressao s, g_altitude s)"

definition readings :: "'f globals \<Rightarrow> 'f list" where
  "readings s = [g_temperatura s, g_umidade s, g_pressao s, g_altitude s]"

text \<open>The tokens that the loop of \<^verbatim>\<open>parse_post_data\<close> visits, in order.\<close>

function c_tokens :: "string \<Rightarrow> string list" where
  "c_tokens rest =
     (case strtok rest of
        None \<Rightarrow> []
      | Some (token, rest') \<Rightarrow> token # c_tokens rest')"
  by pat_completeness auto
termination
proof (relation "measure length")
  show "wf (measure length)" by simp
next
  fix rest :: string and x2 token rest'
  assume a: "strtok rest = Some x2" "(token, rest') = x2"
  define r where "r = dropWhile (\<lambda>c. c = CHR ''&'') rest"
  from a have ne: "r \<noteq> []" and r': "rest' = drop 1 (dropWhile (\<lambda>c. c \<noteq> CHR ''&'') r)"
    by (auto simp: strtok_def r_def Let_def split: if_splits)
  have "length (dropWhile (\<lambda>c. c \<noteq> CHR ''&'') r) \<le> length r"
    by (rule length_dropWhile_le)
  then have "length rest' \<le> length r - 1"
    unfolding r' by simp
  moreover have "length r \<le> length rest"
    unfolding r_def by (rule length_dropWhile_le)
  moreover from ne have "0 < length r" by simp
  ultimately have "length rest' < length rest" by linarith
  then show "(rest', rest) \<in> measure length" by simp
qed

declare c_tokens.simps [simp del]

text \<open>
  The texts on which the conversion of the C library converts something: after white space
  and an optional sign comes a digit, a point followed by a digit, or one of the words
  \<open>inf\<close> and \<open>nan\<close> in either case. On every other text \<^verbatim>\<open>atof\<close> performs
  no conversion; the library is permissive when it returns 0.0 there.
\<close>

definition numeric_text :: "string \<Rightarrow> bool" where
  "numeric_text str =
     (let s1 = dropWhile isspace str;
          s2 = (if take 1 s1 = ''-'' \<or> take 1 s1 = ''+'' then drop 1 s1 else s1)
      in (s2 \<noteq> [] \<and> isdigit (hd s2))
         \<or> (take 1 s2 = ''.'' \<and> drop 1 s2 \<noteq> [] \<and> isdigit (hd (drop 1 s2)))
         \<or> take 3 s2 \<in> set ([[a, b, c]. a \<leftarrow> ''iI'', b \<leftarrow> ''nN'', c \<leftarrow> ''fF'']
                              @ [[a, b, c]. a \<leftarrow> ''nN'', b \<leftarrow> ''aA'', c \<leftarrow> ''nN'']))"

definition permissive_atof :: "'f clib \<Rightarrow> bool" where
  "permissive_atof L = (\<forall>str. \<not> numeric_text str \<longrightarrow> atof L str = fconst L ''0.0'')"



section \<open>Auxiliary facts\<close>

lemma strstr_None_iff: "strstr h n = None \<longleftrightarrow> \<not> sublist n h"
  by (induction h) (auto simp: sublist_Cons_right)

lemma strstr_Some_prefix: "strstr h n = Some r \<Longrightarrow> prefix n r"
  by (induction h) (auto split: if_splits)

lemma strstr_Some_suffix: "strstr h n = Some r \<Longrightarrow> suffix r h"
  by (induction h) (auto split: if_splits simp: suffix_Cons)

lemma strstr_at_start: "strstr (n @ r) n = Some (n @ r)"
proof (cases "n @ r")
  case Nil
  then show ?thesis by simp
next
  case (Cons a l)
  have "prefix n (n @ r)" by simp
  with Cons show ?thesis by simp
qed

lemma cstr_append: "CHR 0x00 \<notin> set a \<Longrightarrow> cstr (a @ b) = a @ cstr b"
  by (induction a) (auto simp: cstr_def)

lemma request_buffer_starts:
  assumes "CHR 0x00 \<notin> set tok" and "length tok \<le> 1023"
  shows "\<exists>r. request_buffer (tok @ rest) old = tok @ r"
proof -
  from assms(2) have "take 1023 (tok @ rest) = tok @ take (1023 - length tok) rest"
    by simp
  then show ?thesis
    unfolding request_buffer_def using assms(1) by (simp add: cstr_append)
qed

lemma dec_length: "n < 10 ^ k \<Longrightarrow> 0 < k \<Longrightarrow> length (dec n) \<le> k"
proof (induction n arbitrary: k rule: dec.induct)
  case (1 n)
  show ?case
  proof (cases "n < 10")
    case True
    then show ?thesis using "1.prems" by (simp add: dec.simps)
  next
    case False
    then obtain k' where k: "k = Suc k'" and "0 < k'"
      using "1.prems" by (cases k; cases "k - 1") auto
    with "1.prems" have "n div 10 < 10 ^ k'" by (simp add: less_mult_imp_div_less mult.commute)
    with "1.IH" False \<open>0 < k'\<close> have "length (dec (n div 10)) \<le> k'" by simp
    with False k show ?thesis by (simp add: dec.simps)
  qed
qed

lemma page_short: "page \<in> set G_PAGES \<Longrightarrow> length page \<le> 12"
  by (auto simp: G_PAGES_def)

lemma navigate_buffer_pending:
  assumes "strstr buf ''GET /navigate '' \<noteq> None" and "g_target_page s = Some page"
    and "page \<in> set G_PAGES"
  shows \<open>tcp_server_recv_buffer L T buf s =
           (s\<lparr>g_target_page := None\<rparr>, send_json_response [] (''{"goto":"'' @ page @ ''"}''))\<close>
  using assms page_short [OF assms(3)]
  by (simp add: tcp_server_recv_buffer_def snprintf_cut_def)

lemma navigate_buffer_empty:
  assumes "strstr buf ''GET /navigate '' \<noteq> None" and "g_target_page s = None"
  shows \<open>tcp_server_recv_buffer L T buf s = (s, send_json_response [] ''{"goto":null}'')\<close>
  using assms by (simp add: tcp_server_recv_buffer_def snprintf_cut_def)

lemma navigate_request_buffer:
  "strstr (request_buffer (''GET /navigate '' @ rest) old) ''GET /navigate '' \<noteq> None"
proof -
  obtain r where "request_buffer (''GET /navigate '' @ rest) old = ''GET /navigate '' @ r"
    using request_buffer_starts [of "''GET /navigate ''" rest old] by auto
  then show ?thesis by (simp only: strstr_at_start) simp
qed

lemma gpio_callback_accepted:
  assumes "gpio_callback gpio now s = Inr s'" and "\<not> now - g_last_press_time s < DEBOUNCE_MS"
  shows "g_target_page s' = Some (G_PAGES ! nat (g_current_page_index s'))
         \<and> 0 \<le> g_current_page_index s' \<and> g_current_page_index s' < 6"
  using assms
  by (auto simp: gpio_callback_def Let_def page_at_def G_PAGES_def split: if_splits sum.splits)

lemma strstr_sublist: "strstr h n \<noteq> None \<longleftrightarrow> sublist n h"
  by (simp add: strstr_None_iff)

lemma route_of_chain:
  "route_of buf =
     (if sublist ''GET /navigate '' buf then Navigate
      else if sublist ''POST /config '' buf then PostConfig
      else if sublist ''GET /getconfig '' buf then GetConfig
      else if sublist ''GET /estado '' buf then Estado
      else if sublist ''GET /config '' buf then ConfigPage
      else if sublist ''GET /temperatura '' buf \<or> sublist ''GET /umidade '' buf
              \<or> sublist ''GET /pressao '' buf \<or> sublist ''GET /altitude '' buf then ChartPage
      else HomePage)"
  unfolding route_of_def route_table_def find.simps by simp

lemma status_line:
  "prefix (''HTTP/1.1 200 OK'' @ CRLF) (hd (send_full_response L T [] c))"
  by (simp add: send_full_response_def send_chunk_def snprintf_cut_def CRLF_def Let_def)

lemma recv_buffer_chain:
  \<open>tcp_server_recv_buffer L T buf s =
     (if sublist ''GET /navigate '' buf then
          (case g_target_page s of
             Some page \<Rightarrow>
               (s\<lparr>g_target_page := None\<rparr>,
                send_json_response [] (snprintf_cut 128 (''{"goto":"'' @ page @ ''"}'')))
           | None \<Rightarrow> (s, send_json_response [] (snprintf_cut 128 ''{"goto":null}'')))
      else if sublist ''POST /config '' buf then
          ((case strstr buf (CRLF @ CRLF) of
              Some body \<Rightarrow> parse_post_data L (drop 4 body) s
            | None \<Rightarrow> s), [EMPTY_200])
      else if sublist ''GET /getconfig '' buf then
          (s, send_json_response [] (snprintf_cut 512 (getconfig_json L s)))
      else if sublist ''GET /estado '' buf then
          (s, send_json_response [] (snprintf_cut 128 (estado_json L s)))
      else (s, send_full_response L T []
              (if sublist ''GET /config '' buf then HTML_CONTENT_CONFIG T
               else if sublist ''GET /temperatura '' buf \<or> sublist ''GET /umidade '' buf
                       \<or> sublist ''GET /pressao '' buf \<or> sublist ''GET /altitude '' buf
                    then HTML_CONTENT_CHART_PAGE T
               else HTML_CONTENT_INICIO T)))\<close>
  unfolding tcp_server_recv_buffer_def strstr_sublist Let_def send_chunk_def append_Nil
  by (rule refl)

lemma goto_null_fits: \<open>snprintf_cut 128 ''{"goto":null}'' = ''{"goto":null}''\<close>
  by (simp add: snprintf_cut_def)

lemma digit_char: "d < 10 \<Longrightarrow> isdigit (''0123456789'' ! d) \<and> of_char (''0123456789'' ! d) - 48 = d"
proof -
  assume "d < 10"
  then have "d = 0 \<or> d = 1 \<or> d = 2 \<or> d = 3 \<or> d = 4 \<or> d = 5 \<or> d = 6 \<or> d = 7
    \<or> d = 8 \<or> d = 9" by arith
  then show ?thesis by (auto simp: isdigit_def)
qed

lemma dec_digits: "\<forall>c \<in> set (dec n). isdigit c"
proof (induction n rule: dec.induct)
  case (1 n)
  show ?case
  proof (cases "n < 10")
    case True
    then show ?thesis using digit_char [of n] by (simp add: dec.simps [of n])
  next
    case False
    with "1.IH" digit_char [of "n mod 10"] show ?thesis by (simp add: dec.simps [of n])
  qed
qed

lemma dec_nonempty: "dec n \<noteq> []"
  by (simp add: dec.simps [of n])

lemma decimal_value_snoc: "decimal_value (ds @ [c]) = 10 * decimal_value ds + (of_char c - 48)"
  by (simp add: decimal_value_def)

lemma decimal_value_dec: "decimal_value (dec n) = n"
proof (induction n rule: dec.induct)
  case (1 n)
  show ?case
  proof (cases "n < 10")
    case True
    then show ?thesis using digit_char [of n] by (simp add: dec.simps [of n] decimal_value_def)
  next
    case False
    with "1.IH" digit_char [of "n mod 10"] show ?thesis
      by (simp add: dec.simps [of n] decimal_value_snoc)
  qed
qed

lemma takeWhile_digits: "\<forall>c \<in> set ds. isdigit c \<Longrightarrow> \<not> isdigit x \<Longrightarrow> takeWhile isdigit (ds @ x # r) = ds"
  by (induction ds) auto

lemma strstr_skip: "\<forall>c \<in> set ds. c \<noteq> x \<Longrightarrow> strstr (ds @ r) (x # n) = strstr r (x # n)"
  by (induction ds) auto

lemma int_of_size_t_small: "n < 2 ^ 31 \<Longrightarrow> int_of_size_t n = int n"
proof -
  assume a: "n < 2 ^ 31"
  have "(word_of_nat n :: 32 word) = word_of_int (int n)" by simp
  then have "sint (word_of_nat n :: 32 word) = (int n + 2 ^ 31) mod 2 ^ 32 - 2 ^ 31"
    by (simp only: int_word_sint) simp
  also from a have "\<dots> = int n" by simp
  finally show ?thesis by (simp add: int_of_size_t_def)
qed

lemma printf_d_nat: "printf_d (int n) = dec n"
  by (simp add: printf_d_def)

lemma snprintf_cut_fits: "length t < n \<Longrightarrow> snprintf_cut n t = t"
  by (simp add: snprintf_cut_def)

lemma snprintf_cut_length: "0 < n \<Longrightarrow> length (snprintf_cut n t) < n"
  unfolding snprintf_cut_def by (cases n) auto

lemma not_digit_CR: "\<not> isdigit (CHR 0x0D)"
  by (simp add: isdigit_def)

lemma dec_no_CR: "\<forall>c \<in> set (dec n). c \<noteq> CHR 0x0D"
  using dec_digits [of n] not_digit_CR by blast

lemma dec_length_size_t: "n < 2 ^ 31 \<Longrightarrow> length (dec n) \<le> 10"
proof -
  assume "n < 2 ^ 31"
  then have "n < 10 ^ 10" by simp
  then show ?thesis by (rule dec_length) simp
qed

lemma http_split_at:
  assumes "strstr (h @ CRLF @ CRLF @ b) (CRLF @ CRLF) = Some (CRLF @ CRLF @ b)"
  shows "http_split (h @ CRLF @ CRLF @ b) = Some (h @ CRLF @ CRLF, b)"
  unfolding http_split_def assms by (simp add: CRLF_def)

lemma json_header_split:
  "strstr (''HTTP/1.1 200 OK'' @ CRLF @ ''Content-Type: application/json'' @ CRLF
             @ ''Content-Length: '' @ dec n @ CRLF @ ''Connection: close'' @ CRLF @ CRLF @ b)
      (CRLF @ CRLF) = Some (CRLF @ CRLF @ b)"
  using dec_no_CR [of n] by (simp add: CRLF_def strstr_skip)

lemma html_header_split:
  "strstr (''HTTP/1.1 200 OK'' @ CRLF @ ''Content-Type: text/html'' @ CRLF
             @ ''Content-Length: '' @ dec n @ CRLF @ ''Connection: close'' @ CRLF @ CRLF @ b)
      (CRLF @ CRLF) = Some (CRLF @ CRLF @ b)"
  using dec_no_CR [of n] by (simp add: CRLF_def strstr_skip)

lemma content_length_value:
  assumes "strstr pre ''Content-Length: '' = None"
    and "strstr (pre @ ''Content-Length: '' @ dec n @ CRLF @ post) ''Content-Length: ''
           = Some (''Content-Length: '' @ dec n @ CRLF @ post)"
  shows "content_length_header (pre @ ''Content-Length: '' @ dec n @ CRLF @ post) = Some n"
proof -
  have "takeWhile isdigit (dec n @ CRLF @ post) = dec n"
    unfolding CRLF_def using dec_digits [of n]
    by (simp add: takeWhile_digits isdigit_def)
  then show ?thesis
    unfolding content_length_header_def assms(2)
    by (simp add: dec_nonempty decimal_value_dec)
qed

lemma well_framed_json:
  assumes "length payload < 2 ^ 31"
  shows "well_framed (send_json_response [] payload)"
proof -
  let ?n = "length payload"
  let ?pre = "''HTTP/1.1 200 OK'' @ CRLF @ ''Content-Type: application/json'' @ CRLF"
  let ?post = "''Connection: close'' @ CRLF @ CRLF"
  let ?hdr = "?pre @ ''Content-Length: '' @ dec ?n @ CRLF @ ?post"
  from dec_length_size_t [OF assms] have "length ?hdr < 128" by (simp add: CRLF_def)
  then have cut: "snprintf_cut 128 ?hdr = ?hdr" by (rule snprintf_cut_fits)
  have resp: "send_json_response [] payload = [?hdr, payload]"
    unfolding send_json_response_def Let_def send_chunk_def int_of_size_t_small [OF assms]
      printf_d_nat
    using cut by simp
  have split: "http_split (?hdr @ payload) = Some (?hdr, payload)"
    using http_split_at [of "?pre @ ''Content-Length: '' @ dec ?n @ CRLF @ ''Connection: close''" payload]
      json_header_split [of ?n payload]
    by simp
  have len: "content_length_header ?hdr = Some ?n"
    by (rule content_length_value) (simp_all add: CRLF_def)
  from split len show ?thesis unfolding well_framed_def resp by simp
qed

lemma well_framed_html:
  assumes "length (HTML_HEADER T) + length (HTML_NAV T) + length (HTML_FOOTER T) + 4095 < 2 ^ 31"
  shows "well_framed (send_full_response L T [] content_template)"
proof -
  define fc where "fc = final_content L content_template"
  have fc_len: "length fc \<le> 4095"
    unfolding fc_def final_content_def snprintf_cut_def by simp
  define body where "body = HTML_HEADER T @ HTML_NAV T @ fc @ HTML_FOOTER T"
  let ?n = "length body"
  have n: "?n = length (HTML_HEADER T) + length (HTML_NAV T) + length fc + length (HTML_FOOTER T)"
    by (simp add: body_def)
  with fc_len assms have small: "?n < 2 ^ 31" by simp
  let ?pre = "''HTTP/1.1 200 OK'' @ CRLF @ ''Content-Type: text/html'' @ CRLF"
  let ?post = "''Connection: close'' @ CRLF @ CRLF"
  let ?hdr = "?pre @ ''Content-Length: '' @ dec ?n @ CRLF @ ?post"
  from dec_length_size_t [OF small] have "length ?hdr < 128" by (simp add: CRLF_def)
  then have cut: "snprintf_cut 128 ?hdr = ?hdr" by (rule snprintf_cut_fits)
  have len_eq: "int_of_size_t (length (HTML_HEADER T) + length (HTML_NAV T) + length fc
                  + length (HTML_FOOTER T)) = int ?n"
    using int_of_size_t_small [OF small] n by simp
  have resp: "send_full_response L T [] content_template
                = [?hdr, HTML_HEADER T, HTML_NAV T, fc, HTML_FOOTER T]"
    unfolding send_full_response_def Let_def send_chunk_def fc_def [symmetric] len_eq printf_d_nat
    using cut by simp
  have split: "http_split (?hdr @ body) = Some (?hdr, body)"
    using http_split_at [of "?pre @ ''Content-Length: '' @ dec ?n @ CRLF @ ''Connection: close''" body]
      html_header_split [of ?n body]
    by simp
  have len: "content_length_header ?hdr = Some ?n"
    by (rule content_length_value) (simp_all add: CRLF_def)
  from split len show ?thesis unfolding well_framed_def resp by (simp add: body_def)
qed

lemma well_framed_empty: "well_framed [EMPTY_200]"
  unfolding well_framed_def
  by (simp add: EMPTY_200_def CRLF_def http_split_def content_length_header_def isdigit_def
      decimal_value_def)

lemma recv_page_state:
  assumes "\<not> sublist ''GET /navigate '' buf" and "\<not> sublist ''POST /config '' buf"
  shows "fst (tcp_server_recv_buffer L T buf s) = s"
  unfolding recv_buffer_chain using assms by simp

lemma recv_navigate_state:
  assumes "sublist ''GET /navigate '' buf"
  shows "fst (tcp_server_recv_buffer L T buf s) = s\<lparr>g_target_page := None\<rparr>"
  unfolding recv_buffer_chain using assms by (cases "g_target_page s") simp_all

lemma recv_post_state:
  assumes "\<not> sublist ''GET /navigate '' buf" and "sublist ''POST /config '' buf"
  shows "tcp_server_recv_buffer L T buf s =
           ((case strstr buf (CRLF @ CRLF) of
               Some body \<Rightarrow> parse_post_data L (drop 4 body) s
             | None \<Rightarrow> s), [EMPTY_200])"
  unfolding recv_buffer_chain using assms by simp

lemma G_NUM_PAGES_value: "G_NUM_PAGES = 24"
  by (simp add: G_NUM_PAGES_def G_PAGES_def sizeof_char_ptr_def)

lemma replicate_numeral: "replicate (numeral k) x = x # replicate (pred_numeral k) x"
  by (simp add: numeral_eq_Suc)

lemmas decimal_eval = decimal_clib_def atof_decimal_def isspace_def isdigit_def
  decimal_value_def Let_def

lemma decimal_startup_estado:
  \<open>estado_json decimal_clib (startup decimal_clib) =
     ''{"temperatura":0.00,"umidade":0.00,"pressao":0.000,"altitude":0.00}''\<close>
  by (simp add: estado_json_def startup_def decimal_clib_def atof_decimal_def isspace_def
      isdigit_def decimal_value_def fmt_fixed_def dec.simps Let_def replicate_numeral)

lemma decimal_startup_config:
  "config_scalars (startup decimal_clib) = [0, 10, 40, 0, 60, 85, 0, 85, 105, 0, 800, 900]"
  by (simp add: config_scalars_def startup_def decimal_eval)

lemma decimal_startup_temp_min: "g_temp_min (startup decimal_clib) = 10"
  by (simp add: startup_def decimal_clib_def atof_decimal_def isspace_def isdigit_def
      decimal_value_def Let_def)

lemma html_response_chunks:
  assumes "length (HTML_HEADER T) + length (HTML_NAV T) + length (HTML_FOOTER T) + 4095 < 2 ^ 31"
  shows "send_full_response L T [] content_template =
           [''HTTP/1.1 200 OK'' @ CRLF @ ''Content-Type: text/html'' @ CRLF
              @ ''Content-Length: ''
              @ dec (length (HTML_HEADER T @ HTML_NAV T @ final_content L content_template
                             @ HTML_FOOTER T))
              @ CRLF @ ''Connection: close'' @ CRLF @ CRLF,
            HTML_HEADER T, HTML_NAV T, final_content L content_template, HTML_FOOTER T]"
proof -
  define fc where "fc = final_content L content_template"
  have fc_len: "length fc \<le> 4095"
    unfolding fc_def final_content_def snprintf_cut_def by simp
  define body where "body = HTML_HEADER T @ HTML_NAV T @ fc @ HTML_FOOTER T"
  let ?n = "length body"
  have n: "?n = length (HTML_HEADER T) + length (HTML_NAV T) + length fc + length (HTML_FOOTER T)"
    by (simp add: body_def)
  with fc_len assms have small: "?n < 2 ^ 31" by simp
  let ?hdr = "''HTTP/1.1 200 OK'' @ CRLF @ ''Content-Type: text/html'' @ CRLF
     @ ''Content-Length: '' @ dec ?n @ CRLF @ ''Connection: close'' @ CRLF @ CRLF"
  from dec_length_size_t [OF small] have "length ?hdr < 128" by (simp add: CRLF_def)
  then have cut: "snprintf_cut 128 ?hdr = ?hdr" by (rule snprintf_cut_fits)
  have len_eq: "int_of_size_t (length (HTML_HEADER T) + length (HTML_NAV T) + length fc
                  + length (HTML_FOOTER T)) = int ?n"
    using int_of_size_t_small [OF small] n by simp
  have "send_full_response L T [] content_template
                = [?hdr, HTML_HEADER T, HTML_NAV T, fc, HTML_FOOTER T]"
    unfolding send_full_response_def Let_def send_chunk_def fc_def [symmetric] len_eq printf_d_nat
    using cut by simp
  then show ?thesis by (simp add: body_def fc_def)
qed

lemma small_templates_size:
  "length (HTML_HEADER small_templates) + length (HTML_NAV small_templates)
     + length (HTML_FOOTER small_templates) + 4095 < (2 :: nat) ^ 31"
  by (simp add: small_templates_def)

lemma small_home_page:
  "send_full_response decimal_clib small_templates [] (HTML_CONTENT_INICIO small_templates)
      = [''HTTP/1.1 200 OK'' @ CRLF @ ''Content-Type: text/html'' @ CRLF
           @ ''Content-Length: 36'' @ CRLF @ ''Connection: close'' @ CRLF @ CRLF,
         ''<html>'', ''<nav/>'', ''<main>home</main>'', ''</html>'']"
proof -
  have fc: "final_content decimal_clib (HTML_CONTENT_INICIO small_templates) = ''<main>home</main>''"
    by (simp add: final_content_def small_templates_def)
  have l: "length (HTML_HEADER small_templates @ HTML_NAV small_templates
                @ ''<main>home</main>'' @ HTML_FOOTER small_templates) = 36"
    by (simp add: small_templates_def)
  have d: "dec 36 = ''36''" by (simp add: dec.simps)
  show ?thesis
    unfolding html_response_chunks [OF small_templates_size] fc l d
    by (simp add: small_templates_def)
qed

lemma request_buffer_clean:
  "length r \<le> 1023 \<Longrightarrow> CHR 0x00 \<notin> set r \<Longrightarrow> request_buffer r [] = r"
  by (simp add: request_buffer_def cstr_append) (simp add: cstr_def)

lemma parse_tokens_fold:
  "parse_tokens L rest s = foldl (\<lambda>s t. parse_token L t s) s (c_tokens rest)"
proof (induction L rest s rule: parse_tokens.induct)
  case (1 L rest s)
  show ?case
  proof (cases "strtok rest")
    case None
    then show ?thesis by (simp add: parse_tokens.simps [of L rest] c_tokens.simps [of rest])
  next
    case (Some p)
    obtain token rest' where p: "p = (token, rest')" by (cases p)
    with Some "1.IH" have "parse_tokens L rest' (parse_token L token s)
        = foldl (\<lambda>s t. parse_token L t s) (parse_token L token s) (c_tokens rest')"
      by simp
    with Some p show ?thesis
      by (simp add: parse_tokens.simps [of L rest] c_tokens.simps [of rest])
  qed
qed

lemma split_on_nonempty: "split_on d r \<noteq> []"
  by (induction r) (auto split: list.splits)

lemma split_on_takeWhile:
  "split_on d r =
     takeWhile (\<lambda>c. c \<noteq> d) r
       # (case dropWhile (\<lambda>c. c \<noteq> d) r of [] \<Rightarrow> [] | x # r' \<Rightarrow> split_on d r')"
  by (induction r) (auto split: list.splits)

lemma split_on_skip:
  "filter (\<lambda>t. t \<noteq> []) (split_on d rest)
     = filter (\<lambda>t. t \<noteq> []) (split_on d (dropWhile (\<lambda>c. c = d) rest))"
  by (induction rest) auto

lemma c_tokens_split:
  "c_tokens rest = filter (\<lambda>t. t \<noteq> []) (split_on (CHR ''&'') rest)"
proof (induction rest rule: c_tokens.induct)
  case (1 rest)
  define r where "r = dropWhile (\<lambda>c. c = CHR ''&'') rest"
  show ?case
  proof (cases "r = []")
    case True
    then have "strtok rest = None" by (simp add: strtok_def r_def)
    then have "c_tokens rest = []" by (simp add: c_tokens.simps [of rest])
    moreover have "filter (\<lambda>t. t \<noteq> []) (split_on (CHR ''&'') rest)
        = filter (\<lambda>t. t \<noteq> []) (split_on (CHR ''&'') r)"
      unfolding r_def by (rule split_on_skip)
    then have "filter (\<lambda>t. t \<noteq> []) (split_on (CHR ''&'') rest) = []"
      by (simp only: True) simp
    ultimately show ?thesis by simp
  next
    case False
    define tok where "tok = takeWhile (\<lambda>c. c \<noteq> CHR ''&'') r"
    define rest' where "rest' = drop 1 (dropWhile (\<lambda>c. c \<noteq> CHR ''&'') r)"
    from False have st: "strtok rest = Some (tok, rest')"
      by (simp add: strtok_def r_def tok_def rest'_def Let_def)
    from False have "hd r \<noteq> CHR ''&''"
      unfolding r_def using hd_dropWhile [of "\<lambda>c. c = CHR ''&''" rest] by simp
    with False have tok_ne: "tok \<noteq> []"
      unfolding tok_def by (cases r) simp_all
    from "1.IH" [OF st refl] have ih: "c_tokens rest'
        = filter (\<lambda>t. t \<noteq> []) (split_on (CHR ''&'') rest')" .
    define dw where "dw = dropWhile (\<lambda>c. c \<noteq> CHR ''&'') r"
    have so: "split_on (CHR ''&'') r
        = tok # (case dw of [] \<Rightarrow> [] | x # r' \<Rightarrow> split_on (CHR ''&'') r')"
      unfolding tok_def dw_def by (rule split_on_takeWhile)
    have rest'_dw: "rest' = drop 1 dw" by (simp only: rest'_def dw_def)
    have "filter (\<lambda>t. t \<noteq> []) (case dw of [] \<Rightarrow> [] | x # r' \<Rightarrow> split_on (CHR ''&'') r')
        = filter (\<lambda>t. t \<noteq> []) (split_on (CHR ''&'') (drop 1 dw))"
      by (cases dw) simp_all
    with tok_ne have "filter (\<lambda>t. t \<noteq> []) (split_on (CHR ''&'') r)
        = tok # filter (\<lambda>t. t \<noteq> []) (split_on (CHR ''&'') rest')"
      by (simp add: so rest'_dw)
    moreover have "filter (\<lambda>t. t \<noteq> []) (split_on (CHR ''&'') rest)
        = filter (\<lambda>t. t \<noteq> []) (split_on (CHR ''&'') r)"
      unfolding r_def by (rule split_on_skip)
    moreover from st have "c_tokens rest = tok # c_tokens rest'"
      by (simp add: c_tokens.simps [of rest])
    ultimately show ?thesis using ih by simp
  qed
qed

lemma take_before_dropWhile: "take (length t - length (dropWhile P t)) t = takeWhile P t"
  by (induction t) (simp_all add: Suc_diff_le length_dropWhile_le)

lemma parse_token_alt:
  "parse_token L t s =
     (if CHR ''='' \<in> set t
      then assign_key (fst (split_field t)) (atof L (snd (split_field t))) s
      else s)"
  by (simp add: parse_token_def strchr_def split_field_def Let_def take_before_dropWhile)

lemma assign_key_sel:
  "(k, sel) \<in> set config_table \<Longrightarrow> sel (assign_key key v s) = (if key = k then v else sel s)"
  unfolding config_table_def assign_key_def by (elim disjE | simp only: set_simps insert_iff empty_iff prod.inject)+ simp_all

lemma assign_key_non_config: "non_config (assign_key key v s) = non_config s"
  by (simp add: assign_key_def non_config_def)

lemma parse_token_sel:
  "(k, sel) \<in> set config_table \<Longrightarrow>
     sel (parse_token L t s) =
       (if CHR ''='' \<in> set t \<and> fst (split_field t) = k then atof L (snd (split_field t))
        else sel s)"
  by (simp add: parse_token_alt assign_key_sel)

lemma parse_token_non_config: "non_config (parse_token L t s) = non_config s"
  by (simp add: parse_token_alt assign_key_non_config)

lemma fold_tokens_sel:
  assumes "(k, sel) \<in> set config_table"
  shows "sel (foldl (\<lambda>s t. parse_token L t s) s ts) =
           (case map_of (rev (map split_field (filter (\<lambda>f. CHR ''='' \<in> set f) ts))) k of
              None \<Rightarrow> sel s
            | Some v \<Rightarrow> atof L v)"
proof (induction ts rule: rev_induct)
  case Nil
  show ?case by simp
next
  case (snoc t ts)
  show ?case
  proof (cases "CHR ''='' \<in> set t \<and> fst (split_field t) = k")
    case True
    then show ?thesis
      by (simp add: parse_token_sel [OF assms] prod_eq_iff)
  next
    case False
    then show ?thesis
      using snoc.IH by (auto simp: parse_token_sel [OF assms] prod_eq_iff)
  qed
qed

lemma fold_tokens_non_config:
  "non_config (foldl (\<lambda>s t. parse_token L t s) s ts) = non_config s"
  by (induction ts rule: rev_induct) (simp_all add: parse_token_non_config)

lemma filter_fields_nonempty:
  "filter (\<lambda>f. CHR ''='' \<in> set f) (filter (\<lambda>t. t \<noteq> []) xs) = filter (\<lambda>f. CHR ''='' \<in> set f) xs"
  by (induction xs) auto

lemma parse_tokens_sel:
  assumes "(k, sel) \<in> set config_table"
  shows "sel (parse_tokens L data s) =
           (case map_of (rev (form_fields data)) k of None \<Rightarrow> sel s | Some v \<Rightarrow> atof L v)"
  unfolding parse_tokens_fold fold_tokens_sel [OF assms] c_tokens_split filter_fields_nonempty
    form_fields_def ..

lemma parse_tokens_non_config: "non_config (parse_tokens L data s) = non_config s"
  by (simp add: parse_tokens_fold fold_tokens_non_config)


lemma split_on_no_delim: "d \<notin> set xs \<Longrightarrow> split_on d xs = [xs]"
  by (induction xs) (simp, fastforce)

lemma split_on_append: "split_on d (xs @ d # ys) = split_on d xs @ split_on d ys"
proof (induction xs)
  case Nil
  show ?case by simp
next
  case (Cons c cs)
  obtain t ts where "split_on d cs = t # ts"
    using split_on_nonempty [of d cs] by (cases "split_on d cs") auto
  with Cons show ?case by simp
qed

lemma long_body_fields:
  "form_fields (''x='' @ replicate 506 (CHR ''y'') @ ''&temp_min=5'')
     = [(''x'', replicate 506 (CHR ''y'')), (''temp_min'', ''5'')]"
proof -
  have "split_on (CHR ''&'') ((''x='' @ replicate 506 (CHR ''y'')) @ CHR ''&'' # ''temp_min=5'')
      = [''x='' @ replicate 506 (CHR ''y''), ''temp_min=5'']"
    unfolding split_on_append by (simp add: split_on_no_delim)
  then show ?thesis by (simp add: form_fields_def split_field_def)
qed

lemma long_body_cut_fields:
  "form_fields (''x='' @ replicate 506 (CHR ''y'') @ ''&te'') = [(''x'', replicate 506 (CHR ''y''))]"
proof -
  have "split_on (CHR ''&'') ((''x='' @ replicate 506 (CHR ''y'')) @ CHR ''&'' # ''te'')
      = [''x='' @ replicate 506 (CHR ''y''), ''te'']"
    unfolding split_on_append by (simp add: split_on_no_delim)
  then show ?thesis by (simp add: form_fields_def split_field_def)
qed

lemma long_body_cut:
  "take 511 (''x='' @ replicate 506 (CHR ''y'') @ ''&temp_min=5'')
     = ''x='' @ replicate 506 (CHR ''y'') @ ''&te''"
  by simp


lemma parse_post_data_readings: "readings (parse_post_data L body s) = readings s"
  using parse_tokens_non_config [of L "take 511 body" s]
  by (simp add: parse_post_data_def non_config_def readings_def)

lemma recv_readings: "readings (fst (tcp_server_recv L T p old s)) = readings s"
proof (cases p)
  case None
  then show ?thesis by (simp add: tcp_server_recv_def)
next
  case (Some received)
  let ?buf = "request_buffer received old"
  have "readings (fst (tcp_server_recv_buffer L T ?buf s)) = readings s"
  proof (cases "sublist ''GET /navigate '' ?buf")
    case True
    then show ?thesis by (simp add: recv_navigate_state readings_def)
  next
    case nav: False
    show ?thesis
    proof (cases "sublist ''POST /config '' ?buf")
      case True
      with nav show ?thesis
        by (simp add: recv_post_state parse_post_data_readings split: option.split)
    next
      case False
      with nav show ?thesis by (simp add: recv_page_state)
    qed
  qed
  with Some show ?thesis by (simp add: tcp_server_recv_def)
qed

lemma gpio_callback_readings: "gpio_callback gpio now s = Inr s' \<Longrightarrow> readings s' = readings s"
  by (auto simp: gpio_callback_def readings_def Let_def split: if_splits sum.splits)

text \<open>
  The array is not terminated behind the received bytes: what it held before is part of
  the C string that the handler reads. Here a short form body is followed by bytes left
  in the array.
\<close>

lemma request_buffer_keeps_old_bytes:
  "request_buffer (''POST /config HTTP/1.1'' @ CRLF @ CRLF @ ''temp_min=5'')
     (replicate 35 (CHR ''x'') @ ''0&alt_max=1'' @ [CHR 0x00])
   = ''POST /config HTTP/1.1'' @ CRLF @ CRLF @ ''temp_min=50&alt_max=1''"
  by (simp add: request_buffer_def cstr_def CRLF_def)

text \<open>Texts without a number, and the decimal instance of the library on them.\<close>

lemma takeWhile_none: "xs = [] \<or> \<not> P (hd xs) \<Longrightarrow> takeWhile P xs = []"
  by (cases xs) simp_all

lemma dropWhile_none: "xs = [] \<or> \<not> P (hd xs) \<Longrightarrow> dropWhile P xs = xs"
  by (cases xs) simp_all

lemma atof_decimal_zero: "atof_decimal ''0.0'' = 0"
  by (simp add: atof_decimal_def isspace_def isdigit_def decimal_value_def Let_def)

lemma atof_decimal_permissive:
  assumes "\<not> numeric_text str"
  shows "atof_decimal str = 0"
proof -
  define s1 where "s1 = dropWhile isspace str"
  define s2 where "s2 = (if take 1 s1 = ''-'' \<or> take 1 s1 = ''+'' then drop 1 s1 else s1)"
  from assms have a: "s2 = [] \<or> \<not> isdigit (hd s2)"
    and b: "take 1 s2 = ''.'' \<longrightarrow> drop 1 s2 = [] \<or> \<not> isdigit (hd (drop 1 s2))"
    unfolding numeric_text_def s1_def [symmetric] Let_def s2_def [symmetric] by blast+
  from a have ip: "takeWhile isdigit s2 = []" by (rule takeWhile_none)
  from a have r: "dropWhile isdigit s2 = s2" by (rule dropWhile_none)
  have fp: "(if take 1 s2 = ''.'' then takeWhile isdigit (drop 1 s2) else []) = []"
  proof (cases "take 1 s2 = ''.''")
    case True
    with b have "drop 1 s2 = [] \<or> \<not> isdigit (hd (drop 1 s2))" by blast
    then have "takeWhile isdigit (drop 1 s2) = []" by (rule takeWhile_none)
    with True show ?thesis by simp
  next
    case False
    then show ?thesis by simp
  qed
  show ?thesis
    unfolding atof_decimal_def s1_def [symmetric] Let_def s2_def [symmetric] ip r fp
    by (simp add: decimal_value_def)
qed

lemma decimal_clib_permissive: "permissive_atof decimal_clib"
  unfolding permissive_atof_def
  by (simp add: decimal_clib_def atof_decimal_permissive atof_decimal_zero)

lemma cstr_zeros: "xs \<noteq> [] \<Longrightarrow> \<forall>c \<in> set xs. c = CHR 0x00 \<Longrightarrow> cstr xs = []"
  by (cases xs) (simp_all add: cstr_def)

lemma request_buffer_zeroed:
  assumes "length r \<le> 1023" and "CHR 0x00 \<notin> set r"
  shows "request_buffer r (replicate 1024 (CHR 0x00)) = r"
proof -
  have "cstr (drop (length r) (take 1023 (replicate 1024 (CHR 0x00))) @ [CHR 0x00]) = []"
    by (rule cstr_zeros) (simp, auto dest: in_set_dropD in_set_takeD)
  with assms show ?thesis by (simp add: request_buffer_def cstr_append)
qed

lemma json_response_chunks:
  assumes "length payload < 2 ^ 31"
  shows "send_json_response [] payload =
           [''HTTP/1.1 200 OK'' @ CRLF @ ''Content-Type: application/json'' @ CRLF
              @ ''Content-Length: '' @ dec (length payload) @ CRLF
              @ ''Connection: close'' @ CRLF @ CRLF,
            payload]"
proof -
  let ?hdr = "''HTTP/1.1 200 OK'' @ CRLF @ ''Content-Type: application/json'' @ CRLF
              @ ''Content-Length: '' @ dec (length payload) @ CRLF
              @ ''Connection: close'' @ CRLF @ CRLF"
  from dec_length_size_t [OF assms] have "length ?hdr < 128" by (simp add: CRLF_def)
  then have cut: "snprintf_cut 128 ?hdr = ?hdr" by (rule snprintf_cut_fits)
  show ?thesis
    unfolding send_json_response_def Let_def send_chunk_def int_of_size_t_small [OF assms]
      printf_d_nat
    using cut by simp
qed

text \<open>The configuration handler and the query handler on the received bytes.\<close>

lemma recv_post_body:
  assumes clean: "request_buffer received old = received"
    and nav: "strstr received ''GET /navigate '' = None"
    and post: "strstr received ''POST /config '' \<noteq> None"
    and body: "strstr received (CRLF @ CRLF) = Some (CRLF @ CRLF @ body)"
  shows "tcp_server_recv L T (Some received) old s = (parse_post_data L body s, [EMPTY_200])"
proof -
  from nav post have "\<not> sublist ''GET /navigate '' received" and "sublist ''POST /config '' received"
    by (simp_all add: strstr_None_iff)
  then have "tcp_server_recv_buffer L T received s =
           ((case strstr received (CRLF @ CRLF) of
               Some body \<Rightarrow> parse_post_data L (drop 4 body) s
             | None \<Rightarrow> s), [EMPTY_200])"
    by (rule recv_post_state)
  then show ?thesis
    unfolding tcp_server_recv_def option.case clean body by (simp add: CRLF_def)
qed

lemma stale_body_fields:
  "form_fields ''temp_min=50&alt_max=1'' = [(''temp_min'', ''50''), (''alt_max'', ''1'')]"
  by (simp add: form_fields_def split_field_def)

lemma nonnumeric_body_fields:
  "form_fields ''temp_offset=1.5&umid_min=65&alt_min=abc''
     = [(''temp_offset'', ''1.5''), (''umid_min'', ''65''), (''alt_min'', ''abc'')]"
  by (simp add: form_fields_def split_field_def)























section \<open>The claims\<close>

text \<open>
  Claim C1 (the page index stays in 0..5, button A maps i to (i - 1 + 6) mod 6, button B
  maps i to (i + 1) mod 6, and the pending target becomes the page at the index). The
  code does not do this: the wrap-around bound is \<open>G_NUM_PAGES = 24\<close>, not 6. From the
  state at startup, one accepted edge of button A sets the index to 23 and reads
  \<open>G_PAGES[23]\<close>; six accepted edges of button B set it to 6 and read \<open>G_PAGES[6]\<close>.
\<close>

theorem gpio_callback_leaves_page_range:
  "next_page_index BUTTON_A 0 = 23
   \<and> next_page_index BUTTON_B 5 = 6
   \<and> gpio_callback BUTTON_A 500 (startup L) = Inl (OutOfBoundsRead 23)
   \<and> run_edges [(BUTTON_B, 500), (BUTTON_B, 1000), (BUTTON_B, 1500), (BUTTON_B, 2000),
                (BUTTON_B, 2500), (BUTTON_B, 3000)] (startup L) = Inl (OutOfBoundsRead 6)"
  by (simp add: next_page_index_def G_NUM_PAGES_value BUTTON_A_def BUTTON_B_def
      gpio_callback_def startup_def DEBOUNCE_MS_def page_at_def G_PAGES_def Let_def)

text \<open>
  Claim C2 (the navigation mailbox is read-and-clear with at-most-once delivery). For
  every request that starts with \<^verbatim>\<open>GET /navigate \<close>, whatever follows and whatever the
  request array held before: a pending page of \<open>G_PAGES\<close> is sent as
  \<^verbatim>\<open>{"goto":"<page>"}\<close> and the slot is cleared; an empty slot gives
  \<^verbatim>\<open>{"goto":null}\<close> and stays empty; a second request right after any first one gives
  \<^verbatim>\<open>{"goto":null}\<close>; so does a request in the startup state; and after an accepted
  button edge the page sent is the one the edge stored.
\<close>

theorem navigate_mailbox_read_and_clear:
  \<open>(\<forall>page \<in> set G_PAGES. g_target_page s = Some page \<longrightarrow>
       tcp_server_recv L T (Some (''GET /navigate '' @ rest)) old s =
         (s\<lparr>g_target_page := None\<rparr>, send_json_response [] (''{"goto":"'' @ page @ ''"}'')))
   \<and> (g_target_page s = None \<longrightarrow>
       tcp_server_recv L T (Some (''GET /navigate '' @ rest)) old s =
         (s, send_json_response [] ''{"goto":null}''))
   \<and> tcp_server_recv L T (Some (''GET /navigate '' @ rest')) old'
         (fst (tcp_server_recv L T (Some (''GET /navigate '' @ rest)) old s)) =
       (fst (tcp_server_recv L T (Some (''GET /navigate '' @ rest)) old s),
        send_json_response [] ''{"goto":null}'')
   \<and> tcp_server_recv L T (Some (''GET /navigate '' @ rest)) old (startup L) =
       (startup L, send_json_response [] ''{"goto":null}'')
   \<and> (\<forall>s'. gpio_callback gpio now s = Inr s' \<and> \<not> now - g_last_press_time s < DEBOUNCE_MS \<longrightarrow>
         tcp_server_recv L T (Some (''GET /navigate '' @ rest)) old s' =
           (s'\<lparr>g_target_page := None\<rparr>,
            send_json_response [] (''{"goto":"'' @ G_PAGES ! nat (g_current_page_index s') @ ''"}'')))\<close>
proof -
  let ?buf = "request_buffer (''GET /navigate '' @ rest) old"
  let ?buf' = "request_buffer (''GET /navigate '' @ rest') old'"
  have b: "strstr ?buf ''GET /navigate '' \<noteq> None" and b': "strstr ?buf' ''GET /navigate '' \<noteq> None"
    by (rule navigate_request_buffer)+
  have r: "tcp_server_recv L T (Some (''GET /navigate '' @ rest)) old x = tcp_server_recv_buffer L T ?buf x" for x
    by (simp add: tcp_server_recv_def)
  have r': "tcp_server_recv L T (Some (''GET /navigate '' @ rest')) old' x = tcp_server_recv_buffer L T ?buf' x" for x
    by (simp add: tcp_server_recv_def)
  have c1: "\<forall>page \<in> set G_PAGES. g_target_page s = Some page \<longrightarrow>
       tcp_server_recv L T (Some (''GET /navigate '' @ rest)) old s =
         (s\<lparr>g_target_page := None\<rparr>, send_json_response [] (''{\"goto\":\"'' @ page @ ''\"}''))"
    unfolding r using navigate_buffer_pending [OF b] by blast
  have c2: "g_target_page s = None \<longrightarrow>
       tcp_server_recv L T (Some (''GET /navigate '' @ rest)) old s =
         (s, send_json_response [] ''{\"goto\":null}'')"
    unfolding r using navigate_buffer_empty [OF b] by blast
  have cleared: "g_target_page (fst (tcp_server_recv_buffer L T ?buf s)) = None"
    using b by (simp add: tcp_server_recv_buffer_def split: option.splits)
  have c3: "tcp_server_recv L T (Some (''GET /navigate '' @ rest')) old'
         (fst (tcp_server_recv L T (Some (''GET /navigate '' @ rest)) old s)) =
       (fst (tcp_server_recv L T (Some (''GET /navigate '' @ rest)) old s),
        send_json_response [] ''{\"goto\":null}'')"
    unfolding r r' by (rule navigate_buffer_empty [OF b' cleared])
  have c4: "tcp_server_recv L T (Some (''GET /navigate '' @ rest)) old (startup L) =
       (startup L, send_json_response [] ''{\"goto\":null}'')"
    unfolding r by (rule navigate_buffer_empty [OF b]) (simp add: startup_def)
  have c5: "\<forall>s'. gpio_callback gpio now s = Inr s' \<and> \<not> now - g_last_press_time s < DEBOUNCE_MS \<longrightarrow>
         tcp_server_recv L T (Some (''GET /navigate '' @ rest)) old s' =
           (s'\<lparr>g_target_page := None\<rparr>,
            send_json_response [] (''{\"goto\":\"'' @ G_PAGES ! nat (g_current_page_index s') @ ''\"}''))"
  proof (intro allI impI, elim conjE)
    fix s'
    assume a: "gpio_callback gpio now s = Inr s'" "\<not> now - g_last_press_time s < DEBOUNCE_MS"
    from gpio_callback_accepted [OF a]
    have t: "g_target_page s' = Some (G_PAGES ! nat (g_current_page_index s'))"
      and i: "0 \<le> g_current_page_index s'" "g_current_page_index s' < 6" by auto
    from i have "nat (g_current_page_index s') < length G_PAGES" by (simp add: G_PAGES_def)
    then have "G_PAGES ! nat (g_current_page_index s') \<in> set G_PAGES" by (rule nth_mem)
    from navigate_buffer_pending [OF b t this]
    show "tcp_server_recv L T (Some (''GET /navigate '' @ rest)) old s' =
           (s'\<lparr>g_target_page := None\<rparr>,
            send_json_response [] (''{\"goto\":\"'' @ G_PAGES ! nat (g_current_page_index s') @ ''\"}''))"
      unfolding r .
  qed
  from c1 c2 c3 c4 c5 show ?thesis by blast
qed

theorem navigate_mailbox_read_and_clear_witness:
  \<open>''/config'' \<in> set G_PAGES
   \<and> g_target_page ((startup decimal_clib)\<lparr>g_target_page := Some ''/config''\<rparr>) = Some ''/config''
   \<and> tcp_server_recv decimal_clib small_templates
        (Some (''GET /navigate '' @ ''HTTP/1.1'' @ CRLF @ CRLF)) []
        ((startup decimal_clib)\<lparr>g_target_page := Some ''/config''\<rparr>) =
       ((startup decimal_clib)\<lparr>g_target_page := None\<rparr>,
        [''HTTP/1.1 200 OK'' @ CRLF @ ''Content-Type: application/json'' @ CRLF
           @ ''Content-Length: 18'' @ CRLF @ ''Connection: close'' @ CRLF @ CRLF,
         ''{"goto":"/config"}''])\<close>
proof -
  have p: "''/config'' \<in> set G_PAGES" by (simp add: G_PAGES_def)
  have t: "g_target_page ((startup decimal_clib)\<lparr>g_target_page := Some ''/config''\<rparr>) = Some ''/config''"
    by simp
  have j: \<open>send_json_response [] ''{"goto":"/config"}'' =
        [''HTTP/1.1 200 OK'' @ CRLF @ ''Content-Type: application/json'' @ CRLF
           @ ''Content-Length: 18'' @ CRLF @ ''Connection: close'' @ CRLF @ CRLF,
         ''{"goto":"/config"}'']\<close>
    by (simp add: send_json_response_def send_chunk_def snprintf_cut_def CRLF_def
        int_of_size_t_def printf_d_def dec.simps)
  from navigate_mailbox_read_and_clear
    [of "(startup decimal_clib)\<lparr>g_target_page := Some ''/config''\<rparr>" decimal_clib small_templates
        "''HTTP/1.1'' @ CRLF @ CRLF" "[]"]
  have \<open>tcp_server_recv decimal_clib small_templates
        (Some (''GET /navigate '' @ ''HTTP/1.1'' @ CRLF @ CRLF)) []
        ((startup decimal_clib)\<lparr>g_target_page := Some ''/config''\<rparr>) =
       ((startup decimal_clib)\<lparr>g_target_page := None\<rparr>,
        send_json_response [] ''{"goto":"/config"}'')\<close>
    using p t by simp
  with p t j show ?thesis by simp
qed


text \<open>
  Claim C3 (after a sample cycle the alert is true exactly when the calibrated temperature
  or the calibrated humidity lies outside its band, pressure and altitude have no
  influence, and the comparisons are literal). \<open>em_alerta\<close> is the disjunction of the
  four comparisons as written, for any ordering of the limits; a cycle that is due draws
  the pattern of that disjunction on the readings it has just stored; and no value of the
  pressure and altitude readings, offsets and limits changes it.
\<close>

theorem alert_iff_temperature_or_humidity_outside:
  fixes s :: "('f :: {plus, minus, times, inverse, ord}) globals"
  shows "(em_alerta s \<longleftrightarrow>
            (g_temperatura s > g_temp_max s \<or> g_temperatura s < g_temp_min s
             \<or> g_umidade s > g_umid_max s \<or> g_umidade s < g_umid_min s))
         \<and> (now_ms - last_ms \<ge> 2000 \<longrightarrow>
              snd (main_loop_iteration L now_ms d (last_ms, s)) =
                Some (draw_alert
                  (temperature d + g_temp_offset s > g_temp_max s
                   \<or> temperature d + g_temp_offset s < g_temp_min s
                   \<or> humidity d + g_umid_offset s > g_umid_max s
                   \<or> humidity d + g_umid_offset s < g_umid_min s)))
         \<and> em_alerta (s\<lparr>g_pressao := p, g_altitude := a, g_press_offset := po,
                          g_press_min := pl, g_press_max := ph, g_alt_offset := ao,
                          g_alt_min := al, g_alt_max := ah\<rparr>) = em_alerta s"
proof (intro conjI impI)
  show "em_alerta s \<longleftrightarrow>
            (g_temperatura s > g_temp_max s \<or> g_temperatura s < g_temp_min s
             \<or> g_umidade s > g_umid_max s \<or> g_umidade s < g_umid_min s)"
    by (simp add: em_alerta_def Let_def)
  show "em_alerta (s\<lparr>g_pressao := p, g_altitude := a, g_press_offset := po,
                          g_press_min := pl, g_press_max := ph, g_alt_offset := ao,
                          g_alt_min := al, g_alt_max := ah\<rparr>) = em_alerta s"
    by (simp add: em_alerta_def Let_def)
  assume "now_ms - last_ms \<ge> 2000"
  then show "snd (main_loop_iteration L now_ms d (last_ms, s)) =
                Some (draw_alert
                  (temperature d + g_temp_offset s > g_temp_max s
                   \<or> temperature d + g_temp_offset s < g_temp_min s
                   \<or> humidity d + g_umid_offset s > g_umid_max s
                   \<or> humidity d + g_umid_offset s < g_umid_min s))"
    by (simp add: main_loop_iteration_def apply_offsets_def em_alerta_def Let_def)
qed

theorem alert_iff_temperature_or_humidity_outside_witness:
  "(2000 :: 32 word) - 0 \<ge> 2000
   \<and> snd (main_loop_iteration decimal_clib 2000
            \<lparr>temperature = 50, humidity = 70, pressure_pa = 101325\<rparr> (0, startup decimal_clib))
       = Some [alerta1, alerta1]
   \<and> snd (main_loop_iteration decimal_clib 2000
            \<lparr>temperature = 25, humidity = 70, pressure_pa = 101325\<rparr> (0, startup decimal_clib))
       = Some [matrizVazia]
   \<and> snd (main_loop_iteration decimal_clib 2000
            \<lparr>temperature = 25, humidity = 70, pressure_pa = 101325\<rparr>
            (0, (startup decimal_clib)\<lparr>g_temp_min := 40, g_temp_max := 10\<rparr>))
       = Some [alerta1, alerta1]"
proof -
  have h: "(2000 :: 32 word) - 0 \<ge> 2000" by simp
  note t = alert_iff_temperature_or_humidity_outside
    [of _ 2000 0 decimal_clib, THEN conjunct2, THEN conjunct1, rule_format, OF h]
  have 1: "snd (main_loop_iteration decimal_clib 2000
            \<lparr>temperature = 50, humidity = 70, pressure_pa = 101325\<rparr> (0, startup decimal_clib))
       = Some [alerta1, alerta1]"
    unfolding t by (simp add: startup_def decimal_eval draw_alert_def)
  have 2: "snd (main_loop_iteration decimal_clib 2000
            \<lparr>temperature = 25, humidity = 70, pressure_pa = 101325\<rparr> (0, startup decimal_clib))
       = Some [matrizVazia]"
    unfolding t by (simp add: startup_def decimal_eval draw_alert_def)
  have 3: "snd (main_loop_iteration decimal_clib 2000
            \<lparr>temperature = 25, humidity = 70, pressure_pa = 101325\<rparr>
            (0, (startup decimal_clib)\<lparr>g_temp_min := 40, g_temp_max := 10\<rparr>))
       = Some [alerta1, alerta1]"
    unfolding t by (simp add: startup_def decimal_eval draw_alert_def)
  from h 1 2 3 show ?thesis by blast
qed

text \<open>
  Claim C4 as stated (for every form body, exactly the scalars named by recognised keys
  are overwritten with the parse of their value text, and the reply is the empty 200
  response) fails in three ways. A body longer than the 511 bytes that
  \<^verbatim>\<open>parse_post_data\<close> copies: this body of 519 bytes names \<open>temp_min\<close> with the
  value text 5, and the scalar keeps its startup value 10. A body that contains the text
  \<^verbatim>\<open>GET /navigate \<close>: the handler looks for that text first, anywhere in the buffer, so
  the request is answered by the navigation handler and no scalar is written. A request
  shorter than what the array held before: the array is not terminated behind the received
  bytes, and the body \<open>temp_min=5\<close> followed by the old bytes \<open>0&alt_max=1\<close> sets
  \<open>temp_min\<close> to 50 and \<open>alt_max\<close> to 1.
\<close>

theorem post_config_body_counterexample:
  \<open>g_temp_min (parse_post_data decimal_clib
       (''x='' @ replicate 506 (CHR ''y'') @ ''&temp_min=5'') (startup decimal_clib)) = 10
   \<and> atof decimal_clib ''5'' = 5
   \<and> map_of (rev (form_fields (''x='' @ replicate 506 (CHR ''y'') @ ''&temp_min=5''))) ''temp_min''
       = Some ''5''
   \<and> tcp_server_recv decimal_clib small_templates
        (Some (''POST /config HTTP/1.1'' @ CRLF @ CRLF @ ''temp_min=5&x=GET /navigate ''))
        (replicate 1024 (CHR 0x00)) (startup decimal_clib)
     = (startup decimal_clib,
        [''HTTP/1.1 200 OK'' @ CRLF @ ''Content-Type: application/json'' @ CRLF
           @ ''Content-Length: 13'' @ CRLF @ ''Connection: close'' @ CRLF @ CRLF,
         ''{"goto":null}''])
   \<and> config_scalars (fst (tcp_server_recv decimal_clib small_templates
        (Some (''POST /config HTTP/1.1'' @ CRLF @ CRLF @ ''temp_min=5''))
        (replicate 35 (CHR ''x'') @ ''0&alt_max=1'' @ [CHR 0x00]) (startup decimal_clib)))
     = [0, 50, 40, 0, 60, 85, 0, 85, 105, 0, 800, 1]\<close>
proof -
  have m: "(''temp_min'', g_temp_min) \<in> set (config_table :: (string \<times> (real globals \<Rightarrow> real)) list)"
    by (simp add: config_table_def)
  have "g_temp_min (parse_post_data decimal_clib
       (''x='' @ replicate 506 (CHR ''y'') @ ''&temp_min=5'') (startup decimal_clib))
      = g_temp_min (startup decimal_clib)"
    unfolding parse_post_data_def long_body_cut parse_tokens_sel [OF m] long_body_cut_fields
    by simp
  then have 1: "g_temp_min (parse_post_data decimal_clib
       (''x='' @ replicate 506 (CHR ''y'') @ ''&temp_min=5'') (startup decimal_clib)) = 10"
    by (simp add: decimal_startup_temp_min)
  have 2: "atof decimal_clib ''5'' = 5"
    by (simp add: decimal_clib_def atof_decimal_def isspace_def isdigit_def decimal_value_def
        Let_def)
  have 3: "map_of (rev (form_fields (''x='' @ replicate 506 (CHR ''y'') @ ''&temp_min=5'')))
      ''temp_min'' = Some ''5''"
    unfolding long_body_fields by simp
  have b: "request_buffer (''POST /config HTTP/1.1'' @ CRLF @ CRLF @ ''temp_min=5&x=GET /navigate '')
        (replicate 1024 (CHR 0x00))
      = ''POST /config HTTP/1.1'' @ CRLF @ CRLF @ ''temp_min=5&x=GET /navigate ''"
    by (rule request_buffer_zeroed) (simp_all add: CRLF_def)
  have j: \<open>send_json_response [] ''{"goto":null}'' =
      [''HTTP/1.1 200 OK'' @ CRLF @ ''Content-Type: application/json'' @ CRLF
           @ ''Content-Length: 13'' @ CRLF @ ''Connection: close'' @ CRLF @ CRLF,
         ''{"goto":null}'']\<close>
    by (simp add: json_response_chunks dec.simps)
  have \<open>tcp_server_recv decimal_clib small_templates
        (Some (''POST /config HTTP/1.1'' @ CRLF @ CRLF @ ''temp_min=5&x=GET /navigate ''))
        (replicate 1024 (CHR 0x00)) (startup decimal_clib)
     = (startup decimal_clib, send_json_response [] ''{"goto":null}'')\<close>
    unfolding tcp_server_recv_def option.case b
    by (rule navigate_buffer_empty) (simp_all add: CRLF_def startup_def)
  then have 4: \<open>tcp_server_recv decimal_clib small_templates
        (Some (''POST /config HTTP/1.1'' @ CRLF @ CRLF @ ''temp_min=5&x=GET /navigate ''))
        (replicate 1024 (CHR 0x00)) (startup decimal_clib)
     = (startup decimal_clib,
        [''HTTP/1.1 200 OK'' @ CRLF @ ''Content-Type: application/json'' @ CRLF
           @ ''Content-Length: 13'' @ CRLF @ ''Connection: close'' @ CRLF @ CRLF,
         ''{"goto":null}''])\<close>
    unfolding j .
  let ?stale = "''POST /config HTTP/1.1'' @ CRLF @ CRLF @ ''temp_min=50&alt_max=1''"
  have "\<not> sublist ''GET /navigate '' ?stale" and "sublist ''POST /config '' ?stale"
    by (simp_all add: strstr_sublist [symmetric] CRLF_def)
  then have "tcp_server_recv_buffer decimal_clib small_templates ?stale (startup decimal_clib) =
           ((case strstr ?stale (CRLF @ CRLF) of
               Some body \<Rightarrow> parse_post_data decimal_clib (drop 4 body) (startup decimal_clib)
             | None \<Rightarrow> startup decimal_clib), [EMPTY_200])"
    by (rule recv_post_state)
  moreover have "strstr ?stale (CRLF @ CRLF) = Some (CRLF @ CRLF @ ''temp_min=50&alt_max=1'')"
    by (simp add: CRLF_def)
  ultimately have st: "fst (tcp_server_recv decimal_clib small_templates
        (Some (''POST /config HTTP/1.1'' @ CRLF @ CRLF @ ''temp_min=5''))
        (replicate 35 (CHR ''x'') @ ''0&alt_max=1'' @ [CHR 0x00]) (startup decimal_clib))
      = parse_tokens decimal_clib ''temp_min=50&alt_max=1'' (startup decimal_clib)"
    unfolding tcp_server_recv_def option.case request_buffer_keeps_old_bytes
    by (simp add: CRLF_def parse_post_data_def)
  have v1: "atof decimal_clib ''50'' = 50" and v2: "atof decimal_clib ''1'' = 1"
    by (simp_all add: decimal_eval)
  have sel: "\<forall>(k, sel) \<in> set config_table.
      sel (parse_tokens decimal_clib ''temp_min=50&alt_max=1'' (startup decimal_clib)) =
        (case map_of (rev (form_fields ''temp_min=50&alt_max=1'')) k of
           None \<Rightarrow> sel (startup decimal_clib)
         | Some v \<Rightarrow> atof decimal_clib v)"
    using parse_tokens_sel by blast
  then have 5: "config_scalars (fst (tcp_server_recv decimal_clib small_templates
        (Some (''POST /config HTTP/1.1'' @ CRLF @ CRLF @ ''temp_min=5''))
        (replicate 35 (CHR ''x'') @ ''0&alt_max=1'' @ [CHR 0x00]) (startup decimal_clib)))
     = [0, 50, 40, 0, 60, 85, 0, 85, 105, 0, 800, 1]"
    unfolding st using decimal_startup_config
    by (simp add: config_table_def config_scalars_def stale_body_fields v1 v2)
  from 1 2 3 4 5 show ?thesis by blast
qed

text \<open>
  Claim C4, as amended: for every configuration request whose buffer holds exactly the
  received bytes (nothing of the old content of the array follows them), contains no text
  \<^verbatim>\<open>GET /navigate \<close>, and whose body, the text after the first empty line, has at most
  511 bytes, the reply is the empty 200 response; each configuration scalar whose key
  occurs in a field of the body holds afterwards the permissive float parse of the value
  text of the last such field, which is 0.0 when that text is not numeric, never an error;
  every other configuration scalar keeps its value; and the navigation variables and the
  readings are unchanged, so unknown keys and pieces without \<open>=\<close> have no effect and do
  not stop the fields after them. The parse is \<^verbatim>\<open>atof\<close> of the C library, a parameter
  here: that it is permissive, 0.0 on every text that is not numeric, is the hypothesis
  \<open>permissive_atof\<close>, and the handler itself has no error path.
\<close>

theorem post_config_updates_named_scalars:
  assumes clean: "request_buffer received old = received"
    and nav: "strstr received ''GET /navigate '' = None"
    and post: "strstr received ''POST /config '' \<noteq> None"
    and body: "strstr received (CRLF @ CRLF) = Some (CRLF @ CRLF @ body)"
    and len: "length body \<le> 511"
    and perm: "permissive_atof L"
  shows "snd (tcp_server_recv L T (Some received) old s) = [EMPTY_200]
         \<and> (\<forall>(k, sel) \<in> set config_table.
              sel (fst (tcp_server_recv L T (Some received) old s)) =
                (case map_of (rev (form_fields body)) k of
                   None \<Rightarrow> sel s
                 | Some v \<Rightarrow> if numeric_text v then atof L v else fconst L ''0.0''))
         \<and> non_config (fst (tcp_server_recv L T (Some received) old s)) = non_config s"
proof -
  note r = recv_post_body [OF clean nav post body, of L T s]
  from len have whole: "take 511 body = body" by simp
  from perm have z: "\<And>v. (if numeric_text v then atof L v else fconst L ''0.0'') = atof L v"
    by (simp add: permissive_atof_def)
  have "\<forall>(k, sel) \<in> set config_table.
          sel (parse_post_data L body s) =
            (case map_of (rev (form_fields body)) k of None \<Rightarrow> sel s | Some v \<Rightarrow> atof L v)"
    unfolding parse_post_data_def whole using parse_tokens_sel by blast
  moreover have "non_config (parse_post_data L body s) = non_config s"
    unfolding parse_post_data_def by (rule parse_tokens_non_config)
  ultimately show ?thesis unfolding r z by simp
qed

theorem post_config_updates_named_scalars_witness:
  "request_buffer (''POST /config HTTP/1.1'' @ CRLF @ CRLF @ ''temp_offset=1.5&umid_min=65&alt_min=abc'')
       (replicate 1024 (CHR 0x00))
     = ''POST /config HTTP/1.1'' @ CRLF @ CRLF @ ''temp_offset=1.5&umid_min=65&alt_min=abc''
   \<and> strstr (''POST /config HTTP/1.1'' @ CRLF @ CRLF @ ''temp_offset=1.5&umid_min=65&alt_min=abc'')
         ''GET /navigate '' = None
   \<and> strstr (''POST /config HTTP/1.1'' @ CRLF @ CRLF @ ''temp_offset=1.5&umid_min=65&alt_min=abc'')
         ''POST /config '' \<noteq> None
   \<and> strstr (''POST /config HTTP/1.1'' @ CRLF @ CRLF @ ''temp_offset=1.5&umid_min=65&alt_min=abc'')
         (CRLF @ CRLF) = Some (CRLF @ CRLF @ ''temp_offset=1.5&umid_min=65&alt_min=abc'')
   \<and> length ''temp_offset=1.5&umid_min=65&alt_min=abc'' \<le> 511
   \<and> permissive_atof decimal_clib
   \<and> \<not> numeric_text ''abc''
   \<and> snd (tcp_server_recv decimal_clib small_templates
         (Some (''POST /config HTTP/1.1'' @ CRLF @ CRLF @ ''temp_offset=1.5&umid_min=65&alt_min=abc''))
         (replicate 1024 (CHR 0x00)) (startup decimal_clib))
       = [''HTTP/1.1 200 OK'' @ CRLF @ ''Content-Length: 0'' @ CRLF @ CRLF]
   \<and> config_scalars (fst (tcp_server_recv decimal_clib small_templates
         (Some (''POST /config HTTP/1.1'' @ CRLF @ CRLF @ ''temp_offset=1.5&umid_min=65&alt_min=abc''))
         (replicate 1024 (CHR 0x00)) (startup decimal_clib)))
       = [1.5, 10, 40, 0, 65, 85, 0, 85, 105, 0, 0, 900]
   \<and> non_config (fst (tcp_server_recv decimal_clib small_templates
         (Some (''POST /config HTTP/1.1'' @ CRLF @ CRLF @ ''temp_offset=1.5&umid_min=65&alt_min=abc''))
         (replicate 1024 (CHR 0x00)) (startup decimal_clib)))
       = non_config (startup decimal_clib)"
proof -
  let ?body = "''temp_offset=1.5&umid_min=65&alt_min=abc''"
  let ?req = "''POST /config HTTP/1.1'' @ CRLF @ CRLF @ ?body"
  let ?old = "replicate 1024 (CHR 0x00)"
  let ?s = "startup decimal_clib"
  have c: "request_buffer ?req ?old = ?req"
    by (rule request_buffer_zeroed) (simp_all add: CRLF_def)
  have b1: "strstr ?req ''GET /navigate '' = None" by (simp add: CRLF_def)
  have b2: "strstr ?req ''POST /config '' \<noteq> None" by (simp add: CRLF_def)
  have b3: "strstr ?req (CRLF @ CRLF) = Some (CRLF @ CRLF @ ?body)" by (simp add: CRLF_def)
  have h: "length ?body \<le> 511" by simp
  note p = decimal_clib_permissive
  have n: "\<not> numeric_text ''abc''" "numeric_text ''1.5''" "numeric_text ''65''"
    by (simp_all add: numeric_text_def isspace_def isdigit_def)
  note t = post_config_updates_named_scalars [OF c b1 b2 b3 h p, of small_templates ?s]
  from t have r: "snd (tcp_server_recv decimal_clib small_templates (Some ?req) ?old ?s)
      = [EMPTY_200]" by blast
  from t have sel: "\<forall>(k, sel) \<in> set config_table.
      sel (fst (tcp_server_recv decimal_clib small_templates (Some ?req) ?old ?s)) =
        (case map_of (rev (form_fields ?body)) k of
           None \<Rightarrow> sel ?s
         | Some v \<Rightarrow> if numeric_text v then atof decimal_clib v else fconst decimal_clib ''0.0'')"
    by blast
  from t have nc: "non_config (fst (tcp_server_recv decimal_clib small_templates (Some ?req) ?old ?s))
      = non_config ?s" by blast
  have v1: "atof decimal_clib ''1.5'' = 1.5" and v2: "atof decimal_clib ''65'' = 65"
    and v3: "fconst decimal_clib ''0.0'' = 0"
    by (simp_all add: decimal_eval)
  from sel have cs: "config_scalars (fst (tcp_server_recv decimal_clib small_templates (Some ?req) ?old ?s))
      = [1.5, 10, 40, 0, 65, 85, 0, 85, 105, 0, 0, 900]"
    using decimal_startup_config
    by (simp add: config_table_def config_scalars_def nonnumeric_body_fields v1 v2 v3 n)
  from c b1 b2 b3 h p n(1) r cs nc show ?thesis by (simp add: EMPTY_200_def)
qed

text \<open>
  Claim C5 (a sample cycle overwrites the four readings, each with its raw value plus the
  offset of its metric, in the order temperature, humidity, pressure, altitude, and only
  the main loop does so). An iteration of the main loop whose cycle is due stores the four
  sums, with the offsets it found, and changes nothing else; an iteration whose cycle is
  not due changes nothing; and neither the request handler nor the button callback
  changes a reading.
\<close>

theorem sample_cycle_applies_offsets:
  fixes s :: "('f :: {plus, minus, times, inverse, ord}) globals"
  shows "(now_ms - last_ms \<ge> 2000 \<longrightarrow>
            fst (main_loop_iteration L now_ms d (last_ms, s)) =
              (now_ms,
               s\<lparr>g_temperatura := temperature d + g_temp_offset s,
                 g_umidade := humidity d + g_umid_offset s,
                 g_pressao := pressure_pa d / fconst L ''1000.0'' + g_press_offset s,
                 g_altitude := calculate_altitude L (pressure_pa d) + g_alt_offset s\<rparr>))
         \<and> (\<not> now_ms - last_ms \<ge> 2000 \<longrightarrow>
              main_loop_iteration L now_ms d (last_ms, s) = ((last_ms, s), None))
         \<and> readings (fst (tcp_server_recv L T p old s)) = readings s
         \<and> (\<forall>s'. gpio_callback gpio now s = Inr s' \<longrightarrow> readings s' = readings s)"
proof (intro conjI impI allI)
  assume "now_ms - last_ms \<ge> 2000"
  then show "fst (main_loop_iteration L now_ms d (last_ms, s)) =
              (now_ms,
               s\<lparr>g_temperatura := temperature d + g_temp_offset s,
                 g_umidade := humidity d + g_umid_offset s,
                 g_pressao := pressure_pa d / fconst L ''1000.0'' + g_press_offset s,
                 g_altitude := calculate_altitude L (pressure_pa d) + g_alt_offset s\<rparr>)"
    by (simp add: main_loop_iteration_def apply_offsets_def Let_def)
next
  assume "\<not> now_ms - last_ms \<ge> 2000"
  then show "main_loop_iteration L now_ms d (last_ms, s) = ((last_ms, s), None)"
    by (simp add: main_loop_iteration_def)
next
  show "readings (fst (tcp_server_recv L T p old s)) = readings s"
    by (rule recv_readings)
next
  fix s'
  assume "gpio_callback gpio now s = Inr s'"
  then show "readings s' = readings s" by (rule gpio_callback_readings)
qed

theorem sample_cycle_applies_offsets_witness:
  "(2000 :: 32 word) - 0 \<ge> 2000
   \<and> readings (snd (fst (main_loop_iteration decimal_clib 2000
        \<lparr>temperature = 25, humidity = 70, pressure_pa = 101325\<rparr>
        (0, (startup decimal_clib)\<lparr>g_temp_offset := 1.5, g_alt_offset := 3\<rparr>))))
      = [26.5, 70, 101.325, 3]
   \<and> config_scalars (snd (fst (main_loop_iteration decimal_clib 2000
        \<lparr>temperature = 25, humidity = 70, pressure_pa = 101325\<rparr>
        (0, (startup decimal_clib)\<lparr>g_temp_offset := 1.5, g_alt_offset := 3\<rparr>))))
      = [1.5, 10, 40, 0, 60, 85, 0, 85, 105, 3, 800, 900]"
proof -
  have h: "(2000 :: 32 word) - 0 \<ge> 2000" by simp
  note e = sample_cycle_applies_offsets
    [of 2000 0 decimal_clib "\<lparr>temperature = 25, humidity = 70, pressure_pa = 101325\<rparr>"
        "(startup decimal_clib)\<lparr>g_temp_offset := 1.5, g_alt_offset := 3\<rparr>",
     THEN conjunct1, rule_format, OF h]
  have c: "calculate_altitude decimal_clib 101325 = 0"
    unfolding calculate_altitude_def decimal_clib_def
    by (simp add: atof_decimal_def isspace_def isdigit_def decimal_value_def Let_def)
  have k: "fconst decimal_clib ''1000.0'' = 1000"
    by (simp add: decimal_eval)
  have r: "readings (snd (fst (main_loop_iteration decimal_clib 2000
        \<lparr>temperature = 25, humidity = 70, pressure_pa = 101325\<rparr>
        (0, (startup decimal_clib)\<lparr>g_temp_offset := 1.5, g_alt_offset := 3\<rparr>))))
      = [26.5, 70, 101.325, 3]"
    unfolding e by (simp add: readings_def c k) (simp_all add: startup_def decimal_eval)
  have g: "config_scalars (snd (fst (main_loop_iteration decimal_clib 2000
        \<lparr>temperature = 25, humidity = 70, pressure_pa = 101325\<rparr>
        (0, (startup decimal_clib)\<lparr>g_temp_offset := 1.5, g_alt_offset := 3\<rparr>))))
      = [1.5, 10, 40, 0, 60, 85, 0, 85, 105, 3, 800, 900]"
    unfolding e by (simp add: config_scalars_def startup_def decimal_eval)
  from h r g show ?thesis by blast
qed

text \<open>
  Claim C6 as stated (routing by exact match of method and path, and the home page for
  every request that matches no entry) fails: the handler searches the whole buffer. A
  request for \<^verbatim>\<open>GET /estado\<close> with a header that mentions \<^verbatim>\<open>GET /navigate \<close> is
  answered by the navigation handler, and a request for an unknown path with a header that
  mentions \<^verbatim>\<open>GET /estado \<close> is answered with the readings, not with the home page.
\<close>

theorem dispatch_exact_match_counterexample:
  \<open>tcp_server_recv decimal_clib small_templates
      (Some (''GET /estado HTTP/1.1'' @ CRLF @ ''X-Note: GET /navigate '' @ CRLF @ CRLF)) []
      (startup decimal_clib)
    = (startup decimal_clib, send_json_response [] ''{"goto":null}'')
   \<and> send_json_response [] ''{"goto":null}''
     \<noteq> send_json_response [] (snprintf_cut 128 (estado_json decimal_clib (startup decimal_clib)))
   \<and> tcp_server_recv decimal_clib small_templates
      (Some (''GET /doesnotexist HTTP/1.1'' @ CRLF @ ''X-Note: GET /estado '' @ CRLF @ CRLF)) []
      (startup decimal_clib)
    = (startup decimal_clib,
       send_json_response []
         ''{"temperatura":0.00,"umidade":0.00,"pressao":0.000,"altitude":0.00}'')
   \<and> send_json_response []
         ''{"temperatura":0.00,"umidade":0.00,"pressao":0.000,"altitude":0.00}''
     \<noteq> send_full_response decimal_clib small_templates [] (HTML_CONTENT_INICIO small_templates)\<close>
proof -
  have b1: "request_buffer (''GET /estado HTTP/1.1'' @ CRLF @ ''X-Note: GET /navigate '' @ CRLF @ CRLF) []
            = ''GET /estado HTTP/1.1'' @ CRLF @ ''X-Note: GET /navigate '' @ CRLF @ CRLF"
    by (rule request_buffer_clean) (simp_all add: CRLF_def)
  have b2: "request_buffer (''GET /doesnotexist HTTP/1.1'' @ CRLF @ ''X-Note: GET /estado '' @ CRLF @ CRLF) []
            = ''GET /doesnotexist HTTP/1.1'' @ CRLF @ ''X-Note: GET /estado '' @ CRLF @ CRLF"
    by (rule request_buffer_clean) (simp_all add: CRLF_def)
  have r1: \<open>tcp_server_recv decimal_clib small_templates
      (Some (''GET /estado HTTP/1.1'' @ CRLF @ ''X-Note: GET /navigate '' @ CRLF @ CRLF)) []
      (startup decimal_clib)
    = (startup decimal_clib, send_json_response [] ''{"goto":null}'')\<close>
    unfolding tcp_server_recv_def option.case b1
    by (rule navigate_buffer_empty) (simp_all add: CRLF_def startup_def)
  have r2: \<open>tcp_server_recv decimal_clib small_templates
      (Some (''GET /doesnotexist HTTP/1.1'' @ CRLF @ ''X-Note: GET /estado '' @ CRLF @ CRLF)) []
      (startup decimal_clib)
    = (startup decimal_clib,
       send_json_response []
         ''{"temperatura":0.00,"umidade":0.00,"pressao":0.000,"altitude":0.00}'')\<close>
    unfolding tcp_server_recv_def option.case b2 tcp_server_recv_buffer_def decimal_startup_estado
    by (simp add: CRLF_def snprintf_cut_def)
  have n1: \<open>send_json_response [] ''{"goto":null}''
     \<noteq> send_json_response [] (snprintf_cut 128 (estado_json decimal_clib (startup decimal_clib)))\<close>
    unfolding decimal_startup_estado
    by (simp add: send_json_response_def send_chunk_def snprintf_cut_def)
  have n2: \<open>send_json_response []
         ''{"temperatura":0.00,"umidade":0.00,"pressao":0.000,"altitude":0.00}''
     \<noteq> send_full_response decimal_clib small_templates [] (HTML_CONTENT_INICIO small_templates)\<close>
    unfolding small_home_page by (simp add: send_json_response_def send_chunk_def)
  from r1 r2 n1 n2 show ?thesis by blast
qed

text \<open>
  Claim C6, as amended: the handler is chosen by case-sensitive substring search. The
  first entry of the route table whose text \<open>"<method> <path> "\<close> occurs anywhere in the
  request buffer selects the handler, and a buffer in which no entry's text occurs is
  answered with the home page template, with status 200.
\<close>

theorem dispatch_first_substring_match:
  \<open>tcp_server_recv_buffer L T buf s =
     (case route_of buf of
        Navigate \<Rightarrow>
          (case g_target_page s of
             Some page \<Rightarrow>
               (s\<lparr>g_target_page := None\<rparr>,
                send_json_response [] (snprintf_cut 128 (''{"goto":"'' @ page @ ''"}'')))
           | None \<Rightarrow> (s, send_json_response [] ''{"goto":null}''))
      | PostConfig \<Rightarrow>
          ((case strstr buf (CRLF @ CRLF) of
              Some body \<Rightarrow> parse_post_data L (drop 4 body) s
            | None \<Rightarrow> s), [EMPTY_200])
      | GetConfig \<Rightarrow> (s, send_json_response [] (snprintf_cut 512 (getconfig_json L s)))
      | Estado \<Rightarrow> (s, send_json_response [] (snprintf_cut 128 (estado_json L s)))
      | ConfigPage \<Rightarrow> (s, send_full_response L T [] (HTML_CONTENT_CONFIG T))
      | ChartPage \<Rightarrow> (s, send_full_response L T [] (HTML_CONTENT_CHART_PAGE T))
      | HomePage \<Rightarrow> (s, send_full_response L T [] (HTML_CONTENT_INICIO T)))
   \<and> ((\<forall>(tok, h) \<in> set route_table. \<not> sublist tok buf) \<longrightarrow>
        tcp_server_recv_buffer L T buf s = (s, send_full_response L T [] (HTML_CONTENT_INICIO T))
        \<and> prefix (''HTTP/1.1 200 OK'' @ CRLF) (hd (send_full_response L T [] (HTML_CONTENT_INICIO T))))\<close>
proof (intro conjI impI)
  show \<open>tcp_server_recv_buffer L T buf s =
     (case route_of buf of
        Navigate \<Rightarrow>
          (case g_target_page s of
             Some page \<Rightarrow>
               (s\<lparr>g_target_page := None\<rparr>,
                send_json_response [] (snprintf_cut 128 (''{"goto":"'' @ page @ ''"}'')))
           | None \<Rightarrow> (s, send_json_response [] ''{"goto":null}''))
      | PostConfig \<Rightarrow>
          ((case strstr buf (CRLF @ CRLF) of
              Some body \<Rightarrow> parse_post_data L (drop 4 body) s
            | None \<Rightarrow> s), [EMPTY_200])
      | GetConfig \<Rightarrow> (s, send_json_response [] (snprintf_cut 512 (getconfig_json L s)))
      | Estado \<Rightarrow> (s, send_json_response [] (snprintf_cut 128 (estado_json L s)))
      | ConfigPage \<Rightarrow> (s, send_full_response L T [] (HTML_CONTENT_CONFIG T))
      | ChartPage \<Rightarrow> (s, send_full_response L T [] (HTML_CONTENT_CHART_PAGE T))
      | HomePage \<Rightarrow> (s, send_full_response L T [] (HTML_CONTENT_INICIO T)))\<close>
    unfolding recv_buffer_chain route_of_chain goto_null_fits by simp
next
  assume "\<forall>(tok, h) \<in> set route_table. \<not> sublist tok buf"
  then show "tcp_server_recv_buffer L T buf s = (s, send_full_response L T [] (HTML_CONTENT_INICIO T))"
    unfolding recv_buffer_chain goto_null_fits by (simp add: route_table_def)
next
  show "prefix (''HTTP/1.1 200 OK'' @ CRLF) (hd (send_full_response L T [] (HTML_CONTENT_INICIO T)))"
    by (rule status_line)
qed

theorem dispatch_first_substring_match_witness:
  \<open>route_of (''GET /doesnotexist HTTP/1.1'' @ CRLF @ CRLF) = HomePage
   \<and> tcp_server_recv_buffer decimal_clib small_templates
        (''GET /doesnotexist HTTP/1.1'' @ CRLF @ CRLF) (startup decimal_clib)
     = (startup decimal_clib,
        [''HTTP/1.1 200 OK'' @ CRLF @ ''Content-Type: text/html'' @ CRLF
           @ ''Content-Length: 36'' @ CRLF @ ''Connection: close'' @ CRLF @ CRLF,
         ''<html>'', ''<nav/>'', ''<main>home</main>'', ''</html>''])\<close>
proof -
  have h: "\<forall>(tok, h) \<in> set route_table. \<not> sublist tok (''GET /doesnotexist HTTP/1.1'' @ CRLF @ CRLF)"
    by (simp add: route_table_def CRLF_def strstr_sublist [symmetric])
  then have r: "route_of (''GET /doesnotexist HTTP/1.1'' @ CRLF @ CRLF) = HomePage"
    by (simp add: route_of_chain route_table_def)
  from dispatch_first_substring_match
    [of decimal_clib small_templates "''GET /doesnotexist HTTP/1.1'' @ CRLF @ CRLF" "startup decimal_clib"]
    h have "tcp_server_recv_buffer decimal_clib small_templates
        (''GET /doesnotexist HTTP/1.1'' @ CRLF @ CRLF) (startup decimal_clib)
     = (startup decimal_clib,
        send_full_response decimal_clib small_templates [] (HTML_CONTENT_INICIO small_templates))"
    by blast
  with r show ?thesis unfolding small_home_page by simp
qed

text \<open>
  Claim C7 (an edge that arrives less than 500 ms after the last accepted press changes
  nothing, and so do the second and all later edges inside a debounce window): every
  edge of a sequence whose time is less than 500 ms after \<open>g_last_press_time\<close> leaves
  the whole state as it was, whatever the button.
\<close>

theorem debounce_window_no_op:
  "\<forall>(gpio, now) \<in> set es. unat (now - g_last_press_time s) < 500
   \<Longrightarrow> run_edges es s = Inr s"
proof (induction es)
  case Nil
  show ?case by simp
next
  case (Cons e es)
  obtain gpio now where e: "e = (gpio, now)" by (cases e)
  from Cons.prems e have "unat (now - g_last_press_time s) < 500" by simp
  then have "now - g_last_press_time s < DEBOUNCE_MS"
    by (simp add: DEBOUNCE_MS_def word_less_nat_alt)
  then have "gpio_callback gpio now s = Inr s"
    by (simp add: gpio_callback_def)
  moreover from Cons.prems have "\<forall>(gpio, now) \<in> set es. unat (now - g_last_press_time s) < 500"
    by simp
  ultimately show ?case using Cons.IH e by simp
qed

theorem debounce_window_no_op_witness:
  "unat ((1100 :: 32 word) - g_last_press_time ((startup decimal_clib)\<lparr>g_last_press_time := 1000\<rparr>)) < 500
   \<and> unat ((1499 :: 32 word) - g_last_press_time ((startup decimal_clib)\<lparr>g_last_press_time := 1000\<rparr>)) < 500
   \<and> run_edges [(BUTTON_A, 1100), (BUTTON_B, 1499)]
         ((startup decimal_clib)\<lparr>g_last_press_time := 1000\<rparr>)
       = Inr ((startup decimal_clib)\<lparr>g_last_press_time := 1000\<rparr>)"
proof -
  have h: "\<forall>(gpio, now) \<in> set [(BUTTON_A, 1100 :: 32 word), (BUTTON_B, 1499)].
       unat (now - g_last_press_time ((startup decimal_clib)\<lparr>g_last_press_time := 1000\<rparr>)) < 500"
    by simp
  from debounce_window_no_op [OF h] show ?thesis by simp
qed

text \<open>
  Claim C8 (the \<^verbatim>\<open>Content-Length\<close> header equals the length of the body that is sent,
  and is computed before the body is written). For page templates whose total size stays
  below \<open>2^31\<close> bytes, every response of the handler is well framed: the first chunk
  written is the whole header block, and the length it declares is the number of bytes of
  the chunks written after it.
\<close>

theorem content_length_exact:
  assumes "length (HTML_HEADER T) + length (HTML_NAV T) + length (HTML_FOOTER T) + 4095 < 2 ^ 31"
  shows "well_framed (snd (tcp_server_recv L T (Some received) old s))"
proof -
  have json: "well_framed (send_json_response [] (snprintf_cut k t))" if "0 < k" "k \<le> 512" for k t
  proof -
    from snprintf_cut_length [OF that(1), of t] that(2)
    have "length (snprintf_cut k t) < 2 ^ 31" by simp
    then show ?thesis by (rule well_framed_json)
  qed
  show ?thesis
    unfolding tcp_server_recv_def option.case recv_buffer_chain
    by (simp add: json well_framed_empty well_framed_html [OF assms] split: option.split)
qed

theorem content_length_exact_witness:
  "length (HTML_HEADER small_templates) + length (HTML_NAV small_templates)
     + length (HTML_FOOTER small_templates) + 4095 < (2 :: nat) ^ 31
   \<and> well_framed (snd (tcp_server_recv decimal_clib small_templates
         (Some (''GET /temperatura HTTP/1.1'' @ CRLF @ CRLF)) [] (startup decimal_clib)))"
proof -
  have h: "length (HTML_HEADER small_templates) + length (HTML_NAV small_templates)
     + length (HTML_FOOTER small_templates) + 4095 < (2 :: nat) ^ 31"
    by (simp add: small_templates_def)
  from content_length_exact [OF h] h show ?thesis by simp
qed




text \<open>
  Claim C10 as stated (a \<^verbatim>\<open>POST /config\<close> request buffer without the separator of
  header and body leaves the state unchanged and is answered with the empty 200 response)
  fails: the handler looks for \<^verbatim>\<open>GET /navigate \<close> first, anywhere in the buffer. This
  buffer begins with \<^verbatim>\<open>POST /config \<close>, has no separator and mentions
  \<^verbatim>\<open>GET /navigate \<close> in a header; it is answered with the pending route, not with the
  empty 200 response, and the pending route is cleared.
\<close>

theorem post_config_without_separator_counterexample:
  \<open>strstr (''POST /config HTTP/1.1'' @ CRLF @ ''X-Note: GET /navigate '' @ CRLF) (CRLF @ CRLF) = None
   \<and> strstr (''POST /config HTTP/1.1'' @ CRLF @ ''X-Note: GET /navigate '' @ CRLF) ''POST /config ''
       = Some (''POST /config HTTP/1.1'' @ CRLF @ ''X-Note: GET /navigate '' @ CRLF)
   \<and> tcp_server_recv_buffer decimal_clib small_templates
        (''POST /config HTTP/1.1'' @ CRLF @ ''X-Note: GET /navigate '' @ CRLF)
        ((startup decimal_clib)\<lparr>g_target_page := Some ''/config''\<rparr>)
     = ((startup decimal_clib)\<lparr>g_target_page := None\<rparr>,
        [''HTTP/1.1 200 OK'' @ CRLF @ ''Content-Type: application/json'' @ CRLF
           @ ''Content-Length: 18'' @ CRLF @ ''Connection: close'' @ CRLF @ CRLF,
         ''{"goto":"/config"}''])
   \<and> EMPTY_200 = ''HTTP/1.1 200 OK'' @ CRLF @ ''Content-Length: 0'' @ CRLF @ CRLF\<close>
proof -
  let ?buf = "''POST /config HTTP/1.1'' @ CRLF @ ''X-Note: GET /navigate '' @ CRLF"
  have 1: "strstr ?buf (CRLF @ CRLF) = None" by (simp add: CRLF_def)
  have 2: "strstr ?buf ''POST /config '' = Some ?buf" by (simp add: CRLF_def)
  have j: \<open>send_json_response [] ''{"goto":"/config"}'' =
      [''HTTP/1.1 200 OK'' @ CRLF @ ''Content-Type: application/json'' @ CRLF
           @ ''Content-Length: 18'' @ CRLF @ ''Connection: close'' @ CRLF @ CRLF,
         ''{"goto":"/config"}'']\<close>
    by (simp add: json_response_chunks dec.simps)
  have \<open>tcp_server_recv_buffer decimal_clib small_templates ?buf
        ((startup decimal_clib)\<lparr>g_target_page := Some ''/config''\<rparr>)
     = ((startup decimal_clib)\<lparr>g_target_page := Some ''/config''\<rparr>\<lparr>g_target_page := None\<rparr>,
        send_json_response [] (''{"goto":"'' @ ''/config'' @ ''"}''))\<close>
    by (rule navigate_buffer_pending) (simp_all add: CRLF_def G_PAGES_def)
  then have 3: \<open>tcp_server_recv_buffer decimal_clib small_templates ?buf
        ((startup decimal_clib)\<lparr>g_target_page := Some ''/config''\<rparr>)
     = ((startup decimal_clib)\<lparr>g_target_page := None\<rparr>,
        [''HTTP/1.1 200 OK'' @ CRLF @ ''Content-Type: application/json'' @ CRLF
           @ ''Content-Length: 18'' @ CRLF @ ''Connection: close'' @ CRLF @ CRLF,
         ''{"goto":"/config"}''])\<close>
    using j by simp
  from 1 2 3 show ?thesis by (simp add: EMPTY_200_def)
qed

text \<open>
  Claim C10, as amended: a request buffer without the separator of header and body leaves
  the twelve configuration scalars unchanged; and when it contains \<^verbatim>\<open>POST /config \<close>
  and no text \<^verbatim>\<open>GET /navigate \<close>, the whole state is unchanged and the reply is the
  empty 200 response.
\<close>

theorem post_config_without_separator:
  assumes "strstr buf (CRLF @ CRLF) = None"
  shows "config_scalars (fst (tcp_server_recv_buffer L T buf s)) = config_scalars s
         \<and> (strstr buf ''GET /navigate '' = None \<and> strstr buf ''POST /config '' \<noteq> None \<longrightarrow>
              tcp_server_recv_buffer L T buf s = (s, [EMPTY_200]))"
proof (intro conjI impI)
  show "config_scalars (fst (tcp_server_recv_buffer L T buf s)) = config_scalars s"
  proof (cases "sublist ''GET /navigate '' buf")
    case True
    then show ?thesis by (simp add: recv_navigate_state config_scalars_def)
  next
    case nav: False
    show ?thesis
    proof (cases "sublist ''POST /config '' buf")
      case True
      with nav show ?thesis by (simp add: recv_post_state assms)
    next
      case False
      with nav show ?thesis by (simp add: recv_page_state)
    qed
  qed
next
  assume "strstr buf ''GET /navigate '' = None \<and> strstr buf ''POST /config '' \<noteq> None"
  then have "\<not> sublist ''GET /navigate '' buf" and "sublist ''POST /config '' buf"
    by (simp_all add: strstr_None_iff)
  then show "tcp_server_recv_buffer L T buf s = (s, [EMPTY_200])"
    by (simp add: recv_post_state assms)
qed

theorem post_config_without_separator_witness:
  "strstr (''POST /config HTTP/1.1'' @ CRLF @ ''Host: pico'' @ CRLF) (CRLF @ CRLF) = None
   \<and> strstr (''POST /config HTTP/1.1'' @ CRLF @ ''Host: pico'' @ CRLF) ''GET /navigate '' = None
   \<and> strstr (''POST /config HTTP/1.1'' @ CRLF @ ''Host: pico'' @ CRLF) ''POST /config '' \<noteq> None
   \<and> tcp_server_recv_buffer decimal_clib small_templates
        (''POST /config HTTP/1.1'' @ CRLF @ ''Host: pico'' @ CRLF) (startup decimal_clib)
       = (startup decimal_clib, [''HTTP/1.1 200 OK'' @ CRLF @ ''Content-Length: 0'' @ CRLF @ CRLF])"
proof -
  have h1: "strstr (''POST /config HTTP/1.1'' @ CRLF @ ''Host: pico'' @ CRLF) (CRLF @ CRLF) = None"
    by (simp add: CRLF_def)
  have h2: "strstr (''POST /config HTTP/1.1'' @ CRLF @ ''Host: pico'' @ CRLF) ''GET /navigate '' = None"
    by (simp add: CRLF_def)
  have h3: "strstr (''POST /config HTTP/1.1'' @ CRLF @ ''Host: pico'' @ CRLF) ''POST /config '' \<noteq> None"
    by (simp add: CRLF_def)
  from post_config_without_separator [OF h1, of decimal_clib small_templates "startup decimal_clib"]
    h1 h2 h3 show ?thesis by (simp add: EMPTY_200_def)
qed

end
